theory Spec2Isabelle
  imports Main "HOL-Library.Char_ord" "HOL-Library.List_Lexorder" "HOL-Library.Multiset"
begin

section \<open>Data model of \<open>src/index.ts\<close>\<close>

text \<open>
  The interfaces of the program become records. Star counts are natural numbers (the
  remote API reports counts, and \<open>starsThisYear\<close> is only ever incremented from 0);
  where the program subtracts them they are read as integers. Strings are \<open>string\<close>
  with the lexicographic order on character codes, which is how JavaScript's \<open>>=\<close> and
  \<open><\<close> compare two strings (on ASCII text such as ISO-8601 timestamps the UTF-16 order
  and the byte order are the same, and so are the two lengths). The field \<open>private\<close>
  is called \<open>isPrivate\<close> here, \<open>private\<close> being a keyword.
\<close>

record Repository =
  name :: string
  full_name :: string
  stargazers_count :: nat
  html_url :: string
  isPrivate :: bool

record User =
  login :: string

record StargazerEvent =
  starred_at :: string
  user :: User

record RepoStarResult =
  name :: string
  fullName :: string
  totalStars :: nat
  starsThisYear :: nat
  url :: string

text \<open>
  What the program reads of a \<open>fetch\<close> response: the status, the status text and the
  decoded JSON array. \<open>response.ok\<close> is true for the statuses 200 to 299. Every
  request is taken to be answered with such a response: a \<open>fetch\<close> that rejects or a
  body that is not a JSON array is outside the model.
\<close>

record 'a Response =
  status :: nat
  statusText :: string
  json :: "'a list"

definition ok :: "'a Response \<Rightarrow> bool" where
  "ok response = (200 \<le> status response \<and> status response \<le> 299)"

text \<open>A thrown \<open>Error\<close> with its message.\<close>

datatype error = Error string

text \<open>
  The remote API, as the program sees it: for a user name and a page index the
  repository-list endpoint answers with a response, and so does the stargazers
  endpoint for an owner, a repository and a page index.
\<close>

record GitHub =
  userRepos :: "string \<Rightarrow> nat \<Rightarrow> Repository Response"
  stargazers :: "string \<Rightarrow> string \<Rightarrow> nat \<Rightarrow> StargazerEvent Response"

definition perPage :: nat where
  "perPage = 100"

section \<open>\<open>getPublicRepos\<close>\<close>

text \<open>
  The \<open>while (true)\<close> loop of \<open>getPublicRepos\<close>. It need not end (a remote that
  answers every page with 100 items keeps it running), so it is a partial function:
  \<open>None\<close> is a run that never returns. Besides the outcome (the thrown error or the
  returned list) the model returns the page indices it requested, in order.
\<close>

partial_function (option) getPublicRepos_loop ::
  "(nat \<Rightarrow> Repository Response) \<Rightarrow> nat \<Rightarrow> Repository list \<Rightarrow> nat list
    \<Rightarrow> ((error + Repository list) \<times> nat list) option" where
  "getPublicRepos_loop fetch page repos fetched =
     (let response = fetch page; fetched' = fetched @ [page] in
      if \<not> ok response
      then Some (Inl (Error (''Failed to fetch repositories: '' @ statusText response)), fetched')
      else
        let data = json response in
        if length data = 0 then Some (Inr repos, fetched')
        else
          let repos' = repos @ filter (\<lambda>repo. \<not> isPrivate repo) data in
          if length data < perPage then Some (Inr repos', fetched')
          else getPublicRepos_loop fetch (page + 1) repos' fetched')"

definition getPublicRepos ::
  "GitHub \<Rightarrow> string \<Rightarrow> ((error + Repository list) \<times> nat list) option" where
  "getPublicRepos gh username = getPublicRepos_loop (userRepos gh username) 1 [] []"

section \<open>\<open>getStarsThisYear\<close>\<close>

text \<open>
  The platform's \<open>Date\<close>: \<open>getFullYear k\<close> is the year that the \<open>k\<close>-th evaluation
  of \<open>new Date().getFullYear()\<close> of a run returns (counted from 0), and
  \<open>startOfYearISO y\<close> is \<open>new Date(y, 0, 1).toISOString()\<close>, which depends on the
  time zone of the process.
\<close>

record Platform =
  getFullYear :: "nat \<Rightarrow> int"
  startOfYearISO :: "int \<Rightarrow> string"

text \<open>The \<open>for (const star of data)\<close> loop: one increment for each event at or after the boundary.\<close>

definition countPage :: "string \<Rightarrow> StargazerEvent list \<Rightarrow> nat \<Rightarrow> nat" where
  "countPage startOfYear data stars =
     fold (\<lambda>star n. if starred_at star \<ge> startOfYear then n + 1 else n) data stars"

text \<open>
  The \<open>while (true)\<close> loop of \<open>getStarsThisYear\<close>, again partial, with the requested
  page indices; \<open>stars\<close> is the local counter \<open>starsThisYear\<close>. \<open>data[data.length - 1]\<close> is read only after the empty page has left
  the loop, so it is the last element.
\<close>

partial_function (option) getStarsThisYear_loop ::
  "(nat \<Rightarrow> StargazerEvent Response) \<Rightarrow> string \<Rightarrow> string \<Rightarrow> string \<Rightarrow> nat \<Rightarrow> nat \<Rightarrow> nat list
    \<Rightarrow> ((error + nat) \<times> nat list) option" where
  "getStarsThisYear_loop fetch owner repo startOfYear page stars fetched =
     (let response = fetch page; fetched' = fetched @ [page] in
      if \<not> ok response
      then
        if status response = 404 then Some (Inr 0, fetched')
        else Some (Inl (Error (''Failed to fetch stargazers for '' @ owner @ ''/'' @ repo @ '': ''
                                @ statusText response)), fetched')
      else
        let data = json response in
        if length data = 0 then Some (Inr stars, fetched')
        else
          let stars' = countPage startOfYear data stars;
              oldestStar = last data
          in
          if starred_at oldestStar < startOfYear then Some (Inr stars', fetched')
          else if length data < perPage then Some (Inr stars', fetched')
          else getStarsThisYear_loop fetch owner repo startOfYear (page + 1) stars' fetched')"

text \<open>
  \<open>getStarsThisYear\<close> reads the clock when it is called: \<open>k\<close> is the position of
  that reading among the clock readings of the run.
\<close>

definition getStarsThisYear ::
  "GitHub \<Rightarrow> Platform \<Rightarrow> nat \<Rightarrow> string \<Rightarrow> string \<Rightarrow> ((error + nat) \<times> nat list) option" where
  "getStarsThisYear gh pf k owner repo =
     (let currentYear = getFullYear pf k;
          startOfYear = startOfYearISO pf currentYear
      in getStarsThisYear_loop (stargazers gh owner repo) owner repo startOfYear 1 0 [])"

section \<open>The main program: tasks, \<open>p-limit\<close> and \<open>Promise.all\<close>\<close>

text \<open>
  One task of \<open>starredRepos.map\<close>: it awaits \<open>getStarsThisYear(username, repo.name)\<close>
  and builds the result object; a thrown error rejects the task, a counter that never
  returns leaves it pending (\<open>None\<close>). The task is returned together with the
  stargazer requests it made: the repository name and the page indices.
\<close>

definition task ::
  "GitHub \<Rightarrow> Platform \<Rightarrow> string \<Rightarrow> nat \<Rightarrow> Repository
    \<Rightarrow> ((error + RepoStarResult) \<times> (string \<times> nat list)) option" where
  "task gh pf username k repo =
     (case getStarsThisYear gh pf k username (Repository.name repo) of
        None \<Rightarrow> None
      | Some (Inl e, fetched) \<Rightarrow> Some (Inl e, (Repository.name repo, fetched))
      | Some (Inr stars, fetched) \<Rightarrow>
          Some (Inr \<lparr> name = Repository.name repo,
                      fullName = full_name repo,
                      totalStars = stargazers_count repo,
                      starsThisYear = stars,
                      url = html_url repo \<rparr>,
                (Repository.name repo, fetched)))"

text \<open>
  The limiter \<open>pLimit(5)\<close> of the library \<open>p-limit\<close> starts the queued tasks in the
  order they were queued, a new one whenever fewer than the given number are running.
  A task that never settles keeps its slot for ever, so once that many tasks are
  pending no later task is started; a task that is never started never settles.
\<close>

fun pLimit :: "nat \<Rightarrow> 'a option list \<Rightarrow> 'a option list" where
  "pLimit slots [] = []"
| "pLimit 0 (t # ts) = None # pLimit 0 ts"
| "pLimit (Suc slots) (None # ts) = None # pLimit slots ts"
| "pLimit (Suc slots) (Some r # ts) = Some r # pLimit (Suc slots) ts"

text \<open>
  \<open>Promise.all\<close>: as soon as one promise rejects, it rejects with that error; when all
  have fulfilled, it fulfils with the values in the order of the promises; otherwise it
  stays pending. Which rejection comes first is a matter of timing: \<open>settled\<close> lists
  task indices in the order in which they settle (tasks it does not list settle after
  those, in index order).
\<close>

definition rejected :: "(error + 'a) option \<Rightarrow> bool" where
  "rejected p = (case p of Some (Inl e) \<Rightarrow> True | _ \<Rightarrow> False)"

definition firstRejection :: "nat list \<Rightarrow> (error + 'a) option list \<Rightarrow> error option" where
  "firstRejection settled ps =
     (case find (\<lambda>i. i < length ps \<and> rejected (ps ! i)) (settled @ [0..<length ps]) of
        None \<Rightarrow> None
      | Some i \<Rightarrow> (case ps ! i of Some (Inl e) \<Rightarrow> Some e | _ \<Rightarrow> None))"

fun fulfilled :: "(error + 'a) option list \<Rightarrow> 'a list option" where
  "fulfilled [] = Some []"
| "fulfilled (Some (Inr v) # ps) = map_option ((#) v) (fulfilled ps)"
| "fulfilled (p # ps) = None"

definition promiseAll :: "nat list \<Rightarrow> (error + 'a) option list \<Rightarrow> (error + 'a list) option" where
  "promiseAll settled ps =
     (case firstRejection settled ps of
        Some e \<Rightarrow> Some (Inl e)
      | None \<Rightarrow> map_option Inr (fulfilled ps))"

text \<open>
  The tasks of a run. The clock reading 0 is the one of the main program itself; the
  tasks are started in the order of \<open>starredRepos\<close> and each reads the clock when it
  starts, so the task of the \<open>i\<close>-th starred repository (from 0) gets reading \<open>i + 1\<close>.
\<close>

definition tasks ::
  "GitHub \<Rightarrow> Platform \<Rightarrow> string \<Rightarrow> Repository list
    \<Rightarrow> ((error + RepoStarResult) \<times> (string \<times> nat list)) option list" where
  "tasks gh pf username repos =
     (let starredRepos = filter (\<lambda>repo. stargazers_count repo > 0) repos
      in pLimit 5 (map (\<lambda>(k, repo). task gh pf username k repo) (enumerate 1 starredRepos)))"

text \<open>\<open>await Promise.all(tasks)\<close>: the results, or the error that ends the program.\<close>

definition aggregate ::
  "GitHub \<Rightarrow> Platform \<Rightarrow> nat list \<Rightarrow> string \<Rightarrow> Repository list
    \<Rightarrow> (error + RepoStarResult list) option" where
  "aggregate gh pf settled username repos =
     promiseAll settled (map (map_option fst) (tasks gh pf username repos))"


section \<open>Ranking and report\<close>

text \<open>
  \<open>results.sort((a, b) => b.starsThisYear - a.starsThisYear)\<close>. The platform's
  \<open>Array.prototype.sort\<close> is a stable sort by the comparator (ECMAScript 2019); it is
  modelled by the stable insertion sort: an element goes in front of the first element
  it does not compare greater than.
\<close>

definition compareStars :: "RepoStarResult \<Rightarrow> RepoStarResult \<Rightarrow> int" where
  "compareStars a b = int (starsThisYear b) - int (starsThisYear a)"

fun insertBy :: "('a \<Rightarrow> 'a \<Rightarrow> int) \<Rightarrow> 'a \<Rightarrow> 'a list \<Rightarrow> 'a list" where
  "insertBy cmp x [] = [x]"
| "insertBy cmp x (y # ys) = (if cmp x y \<le> 0 then x # y # ys else y # insertBy cmp x ys)"

definition sortBy :: "('a \<Rightarrow> 'a \<Rightarrow> int) \<Rightarrow> 'a list \<Rightarrow> 'a list" where
  "sortBy cmp xs = foldr (insertBy cmp) xs []"

text \<open>\<open>String(n)\<close> for an integer, \<open>padStart\<close> and \<open>padEnd\<close> with spaces.\<close>

fun natToString :: "nat \<Rightarrow> string" where
  "natToString n =
     (if n < 10 then [''0123456789'' ! n]
      else natToString (n div 10) @ [''0123456789'' ! (n mod 10)])"

declare natToString.simps [simp del]

definition toString :: "int \<Rightarrow> string" where
  "toString i = (if i < 0 then ''-'' @ natToString (nat (- i)) else natToString (nat i))"

definition padStart :: "string \<Rightarrow> nat \<Rightarrow> string" where
  "padStart s n = replicate (n - length s) CHR '' '' @ s"

definition padEnd :: "string \<Rightarrow> nat \<Rightarrow> string" where
  "padEnd s n = s @ replicate (n - length s) CHR '' ''"

text \<open>
  \<open>Math.max(...xs)\<close> on lengths. The program calls it only on the non-empty \<open>top10\<close>,
  where it is the greatest length (of no arguments \<open>Math.max\<close> is \<open>-Infinity\<close>).
\<close>

definition mathMax :: "nat list \<Rightarrow> nat" where
  "mathMax xs = fold max xs 0"

record Table =
  top10 :: "RepoStarResult list"
  maxNameLen :: nat
  maxStarsLen :: nat
  maxTotalLen :: nat
  rows :: "string list"

record Report =
  results :: "RepoStarResult list"
  totalStarsThisYear :: nat
  totalStarsAllTime :: nat
  table :: "Table option"

definition row :: "nat \<Rightarrow> nat \<Rightarrow> nat \<Rightarrow> nat \<times> RepoStarResult \<Rightarrow> string" where
  "row nameLen starsLen totalLen ir =
     (let index = fst ir; repo = snd ir;
          rank = padStart (toString (int index + 1)) 2;
          rname = padEnd (RepoStarResult.name repo) nameLen;
          stars = padStart (toString (int (starsThisYear repo))) starsLen;
          before = int (totalStars repo) - int (starsThisYear repo);
          beforeStr = padStart (toString before) totalLen;
          total = padStart (toString (int (totalStars repo))) totalLen
      in ''   '' @ rank @ ''. '' @ rname @ ''  +'' @ stars @ '' ('' @ beforeStr @ '' -> '' @ total @ '')'')"

text \<open>
  The part of the main program after \<open>Promise.all\<close>: the sort, the two totals, and
  the table, which is printed only when some repository has new stars.
\<close>

definition report :: "RepoStarResult list \<Rightarrow> Report" where
  "report unsorted =
     (let sorted = sortBy compareStars unsorted;
          reposWithNewStars = filter (\<lambda>r. starsThisYear r > 0) sorted
      in \<lparr> results = sorted,
           totalStarsThisYear = fold (\<lambda>r sum. sum + starsThisYear r) sorted 0,
           totalStarsAllTime = fold (\<lambda>r sum. sum + totalStars r) sorted 0,
           table =
             (if length reposWithNewStars > 0
              then
                let top = take 10 reposWithNewStars;
                    nameLen = mathMax (map (\<lambda>r. length (RepoStarResult.name r)) top);
                    starsLen = mathMax (map (\<lambda>r. length (toString (int (starsThisYear r)))) top);
                    totalLen = mathMax (map (\<lambda>r. length (toString (int (totalStars r)))) top)
                in Some \<lparr> top10 = top, maxNameLen = nameLen, maxStarsLen = starsLen,
                          maxTotalLen = totalLen,
                          rows = map (row nameLen starsLen totalLen) (enumerate 0 top) \<rparr>
              else None) \<rparr>)"

text \<open>
  The main program after the token check, for the user name that \<open>gh api user\<close>
  returned. An error thrown by \<open>getPublicRepos\<close> or by a task ends it.
\<close>

definition main :: "GitHub \<Rightarrow> Platform \<Rightarrow> nat list \<Rightarrow> string \<Rightarrow> (error + Report) option" where
  "main gh pf settled username =
     (case getPublicRepos gh username of
        None \<Rightarrow> None
      | Some (Inl e, fetched) \<Rightarrow> Some (Inl e)
      | Some (Inr repos, fetched) \<Rightarrow>
          (case aggregate gh pf settled username repos of
             None \<Rightarrow> None
           | Some (Inl e) \<Rightarrow> Some (Inl e)
           | Some (Inr unsorted) \<Rightarrow> Some (Inr (report unsorted))))"

text \<open>
  The \<open>currentYear\<close> of the main program (line 121): the first clock reading of the
  run. The main program prints it in the header, and in the lines of the summary that
  give the total of the stars earned in that year and head the table.
\<close>

definition currentYear :: "Platform \<Rightarrow> int" where
  "currentYear pf = getFullYear pf 0"

section \<open>Example inputs\<close>

text \<open>Responses, events and a platform in the time zone UTC, for the concrete runs below.\<close>

definition event :: "string \<Rightarrow> StargazerEvent" where
  "event t = \<lparr> starred_at = t, user = \<lparr> login = ''someone'' \<rparr> \<rparr>"

definition respond :: "'a list \<Rightarrow> 'a Response" where
  "respond items = \<lparr> status = 200, statusText = ''OK'', json = items \<rparr>"

definition failWith :: "nat \<Rightarrow> string \<Rightarrow> 'a Response" where
  "failWith code text = \<lparr> status = code, statusText = text, json = [] \<rparr>"

definition utc :: "(nat \<Rightarrow> int) \<Rightarrow> Platform" where
  "utc clock = \<lparr> getFullYear = clock, startOfYearISO = (\<lambda>y. toString y @ ''-01-01T00:00:00.000Z'') \<rparr>"

definition boundaryGH :: GitHub where
  "boundaryGH =
     \<lparr> userRepos = (\<lambda>username page. respond []),
       stargazers = (\<lambda>owner repo page.
         if page = 1 then respond (replicate 100 (event ''2025-01-01T00:00:00.000Z''))
         else if page = 2 then respond [event ''2025-03-01T12:00:00Z'', event ''2024-12-31T23:59:59Z'']
         else respond []) \<rparr>"


definition vanishedGH :: GitHub where
  "vanishedGH =
     \<lparr> userRepos = (\<lambda>username page. respond []),
       stargazers = (\<lambda>owner repo page.
         if page = 1 then respond (replicate 100 (event ''2025-06-01T08:30:00Z''))
         else failWith 404 ''Not Found'') \<rparr>"

definition repository :: "string \<Rightarrow> nat \<Rightarrow> bool \<Rightarrow> Repository" where
  "repository n stars hidden =
     \<lparr> Repository.name = n, full_name = ''ryoppippi/'' @ n, stargazers_count = stars,
       html_url = ''https://github.com/ryoppippi/'' @ n, isPrivate = hidden \<rparr>"

definition fullPageGH :: GitHub where
  "fullPageGH =
     \<lparr> userRepos = (\<lambda>username page.
         if page = 1 then respond (replicate 100 (repository ''sandbox'' 0 False)) else respond []),
       stargazers = (\<lambda>owner repo page. respond []) \<rparr>"

definition exampleGH :: GitHub where
  "exampleGH =
     \<lparr> userRepos = (\<lambda>username page.
         if page = 1
         then respond [repository ''A'' 5 False, repository ''B'' 10 False, repository ''C'' 0 False]
         else respond []),
       stargazers = (\<lambda>owner repo page.
         if repo = ''A'' \<and> page = 1
         then respond [event ''2025-05-20T10:00:00Z'', event ''2025-03-02T09:15:00Z'',
                       event ''2025-01-01T00:00:00Z'', event ''2024-11-11T11:11:11Z'',
                       event ''2024-02-29T23:00:00Z'']
         else if repo = ''B'' \<and> page = 1
         then respond (replicate 10 (event ''2024-07-07T07:07:07Z''))
         else respond []) \<rparr>"

definition flakyGH :: GitHub where
  "flakyGH =
     \<lparr> userRepos = (\<lambda>username page.
         if page = 1 then respond (replicate 100 (repository ''sandbox'' 0 False))
         else failWith 502 ''Bad Gateway''),
       stargazers = (\<lambda>owner repo page. respond []) \<rparr>"

definition unavailableGH :: GitHub where
  "unavailableGH =
     \<lparr> userRepos = (\<lambda>username page. failWith 404 ''Not Found''),
       stargazers = (\<lambda>owner repo page. respond []) \<rparr>"

definition brokenGH :: GitHub where
  "brokenGH =
     \<lparr> userRepos = (\<lambda>username page.
         if page = 1 then respond [repository ''A'' 5 False, repository ''B'' 10 False]
         else respond []),
       stargazers = (\<lambda>owner repo page.
         if repo = ''B''
         then (if page = 1 then respond (replicate 100 (event ''2025-02-14T18:00:00Z''))
               else failWith 500 ''Internal Server Error'')
         else if page = 1 then respond [event ''2025-05-20T10:00:00Z'']
         else respond []) \<rparr>"

definition resultA :: RepoStarResult where
  "resultA = \<lparr> name = ''A'', fullName = ''ryoppippi/A'', totalStars = 5, starsThisYear = 3,
               url = ''https://github.com/ryoppippi/A'' \<rparr>"

definition resultB :: RepoStarResult where
  "resultB = \<lparr> name = ''B'', fullName = ''ryoppippi/B'', totalStars = 10, starsThisYear = 0,
               url = ''https://github.com/ryoppippi/B'' \<rparr>"

definition twinsGH :: GitHub where
  "twinsGH =
     \<lparr> userRepos = (\<lambda>username page.
         if page = 1 then respond [repository ''first'' 1 False, repository ''second'' 1 False]
         else respond []),
       stargazers = (\<lambda>owner repo page.
         if page = 1 then respond [event ''2024-06-15T12:00:00Z''] else respond []) \<rparr>"

definition newYearsEve :: Platform where
  "newYearsEve = utc (\<lambda>k. if k < 2 then 2024 else 2025)"

definition year2024 :: Platform where
  "year2024 = utc (\<lambda>k. 2024)"

definition twinResult :: "string \<Rightarrow> nat \<Rightarrow> RepoStarResult" where
  "twinResult n stars =
     \<lparr> name = n, fullName = ''ryoppippi/'' @ n, totalStars = 1, starsThisYear = stars,
       url = ''https://github.com/ryoppippi/'' @ n \<rparr>"

section \<open>Properties of the stargazer counter\<close>

lemma countPage_eq:
  "countPage start data n = n + length (filter (\<lambda>star. start \<le> starred_at star) data)"
  unfolding countPage_def by (induction data arbitrary: n) auto

lemma stars_loop_next:
  assumes "ok (fetch page)" "json (fetch page) \<noteq> []"
    "\<not> starred_at (last (json (fetch page))) < start" "\<not> length (json (fetch page)) < perPage"
  shows "getStarsThisYear_loop fetch owner repo start page n fetched =
         getStarsThisYear_loop fetch owner repo start (Suc page)
           (n + length (filter (\<lambda>star. start \<le> starred_at star) (json (fetch page)))) (fetched @ [page])"
  using assms by (subst getStarsThisYear_loop.simps) (simp add: Let_def countPage_eq)

lemma stars_loop_prefix:
  assumes "\<forall>q. page \<le> q \<and> q < page + k \<longrightarrow> ok (fetch q) \<and> json (fetch q) \<noteq> [] \<and>
            \<not> starred_at (last (json (fetch q))) < start \<and> \<not> length (json (fetch q)) < perPage"
  shows "getStarsThisYear_loop fetch owner repo start page n fetched =
         getStarsThisYear_loop fetch owner repo start (page + k)
           (n + (\<Sum>q\<leftarrow>[page..<page + k]. length (filter (\<lambda>star. start \<le> starred_at star) (json (fetch q)))))
           (fetched @ [page..<page + k])"
  using assms
proof (induction k arbitrary: page n fetched)
  case 0
  then show ?case by simp
next
  case (Suc k)
  have here: "ok (fetch page) \<and> json (fetch page) \<noteq> [] \<and>
            \<not> starred_at (last (json (fetch page))) < start \<and> \<not> length (json (fetch page)) < perPage"
    using Suc.prems by simp
  have rest: "\<forall>q. Suc page \<le> q \<and> q < Suc page + k \<longrightarrow> ok (fetch q) \<and> json (fetch q) \<noteq> [] \<and>
            \<not> starred_at (last (json (fetch q))) < start \<and> \<not> length (json (fetch q)) < perPage"
    using Suc.prems by simp
  have split: "[page..<page + Suc k] = page # [Suc page..<Suc page + k]"
    by (simp add: upt_conv_Cons)
  have "getStarsThisYear_loop fetch owner repo start page n fetched =
        getStarsThisYear_loop fetch owner repo start (Suc page)
          (n + length (filter (\<lambda>star. start \<le> starred_at star) (json (fetch page)))) (fetched @ [page])"
    using here by (simp add: stars_loop_next)
  also have "\<dots> = getStarsThisYear_loop fetch owner repo start (Suc page + k)
          (n + length (filter (\<lambda>star. start \<le> starred_at star) (json (fetch page)))
             + (\<Sum>q\<leftarrow>[Suc page..<Suc page + k]. length (filter (\<lambda>star. start \<le> starred_at star) (json (fetch q)))))
          ((fetched @ [page]) @ [Suc page..<Suc page + k])"
    by (rule Suc.IH [OF rest])
  finally show ?case
    unfolding split by (simp add: add.assoc)
qed

lemma stars_loop_404:
  assumes "status (fetch page) = 404"
  shows "getStarsThisYear_loop fetch owner repo start page n fetched = Some (Inr 0, fetched @ [page])"
  using assms by (subst getStarsThisYear_loop.simps) (simp add: Let_def ok_def)

lemma stars_loop_error:
  assumes "\<not> ok (fetch page)" "status (fetch page) \<noteq> 404"
  shows "getStarsThisYear_loop fetch owner repo start page n fetched =
    Some (Inl (Error (''Failed to fetch stargazers for '' @ owner @ ''/'' @ repo @ '': ''
                                @ statusText (fetch page))), fetched @ [page])"
  using assms by (subst getStarsThisYear_loop.simps) (simp add: Let_def)

lemma stars_loop_stop:
  assumes "ok (fetch page)"
     "json (fetch page) = [] \<or> starred_at (last (json (fetch page))) < start \<or> length (json (fetch page)) < perPage"
  shows "getStarsThisYear_loop fetch owner repo start page n fetched =
    Some (Inr (n + length (filter (\<lambda>star. start \<le> starred_at star) (json (fetch page)))), fetched @ [page])"
  using assms by (subst getStarsThisYear_loop.simps) (auto simp add: Let_def countPage_eq)

lemma utc2025: "startOfYearISO (utc (\<lambda>k. 2025)) (getFullYear (utc (\<lambda>k. 2025)) k) = ''2025-01-01T00:00:00.000Z''"
  by (simp add: utc_def toString_def natToString.simps)


text \<open>
  Claim C1. When every page before page \<open>p\<close> is a full page whose last event is at or
  after the boundary (equal to it included), and page \<open>p\<close> is empty, or ends with an
  event strictly before the boundary, or is short, the counter requests exactly the
  pages 1 to \<open>p\<close> and returns the number of events on them, page \<open>p\<close> included,
  whose timestamp is greater than or equal to the boundary.
\<close>

theorem counter_window:
  assumes "1 \<le> p"
    and "\<forall>q. 1 \<le> q \<and> q < p \<longrightarrow>
           ok (stargazers gh owner repo q) \<and> perPage \<le> length (json (stargazers gh owner repo q)) \<and>
           startOfYearISO pf (getFullYear pf k) \<le> starred_at (last (json (stargazers gh owner repo q)))"
    and "ok (stargazers gh owner repo p)"
    and "json (stargazers gh owner repo p) = [] \<or>
         starred_at (last (json (stargazers gh owner repo p))) < startOfYearISO pf (getFullYear pf k) \<or>
         length (json (stargazers gh owner repo p)) < perPage"
  shows "getStarsThisYear gh pf k owner repo =
         Some (Inr (\<Sum>q\<leftarrow>[1..<Suc p].
                      length (filter (\<lambda>star. startOfYearISO pf (getFullYear pf k) \<le> starred_at star)
                                (json (stargazers gh owner repo q)))),
               [1..<Suc p])"
proof -
  let ?fetch = "stargazers gh owner repo"
  let ?start = "startOfYearISO pf (getFullYear pf k)"
  obtain j where p: "p = 1 + j"
    using assms(1) by (metis le_Suc_ex)
  have before: "\<forall>q. 1 \<le> q \<and> q < 1 + j \<longrightarrow> ok (?fetch q) \<and> json (?fetch q) \<noteq> [] \<and>
            \<not> starred_at (last (json (?fetch q))) < ?start \<and> \<not> length (json (?fetch q)) < perPage"
    using assms(2) unfolding p by (auto simp: perPage_def)
  have "getStarsThisYear gh pf k owner repo = getStarsThisYear_loop ?fetch owner repo ?start 1 0 []"
    by (simp add: getStarsThisYear_def)
  also have "\<dots> = getStarsThisYear_loop ?fetch owner repo ?start (1 + j)
                    (0 + (\<Sum>q\<leftarrow>[1..<1 + j]. length (filter (\<lambda>star. ?start \<le> starred_at star) (json (?fetch q)))))
                    ([] @ [1..<1 + j])"
    by (rule stars_loop_prefix [OF before])
  also have "\<dots> = Some (Inr (0 + (\<Sum>q\<leftarrow>[1..<1 + j]. length (filter (\<lambda>star. ?start \<le> starred_at star) (json (?fetch q))))
                              + length (filter (\<lambda>star. ?start \<le> starred_at star) (json (?fetch (1 + j))))),
                        ([] @ [1..<1 + j]) @ [1 + j])"
    using assms(3,4) unfolding p by (intro stars_loop_stop) 
  finally show ?thesis
    unfolding p by simp
qed

theorem counter_window_witness:
  "getStarsThisYear boundaryGH (utc (\<lambda>k. 2025)) 0 ''ryoppippi'' ''ccusage'' = Some (Inr 101, [1, 2])"
proof -
  let ?pf = "utc (\<lambda>k. 2025)"
  have sg1: "stargazers boundaryGH ''ryoppippi'' ''ccusage'' (Suc 0) = respond (replicate 100 (event ''2025-01-01T00:00:00.000Z''))"
    by (simp add: boundaryGH_def)
  have sg2: "stargazers boundaryGH ''ryoppippi'' ''ccusage'' 2 = respond [event ''2025-03-01T12:00:00Z'', event ''2024-12-31T23:59:59Z'']"
    by (simp add: boundaryGH_def)
  have h1: "(1::nat) \<le> 2" by simp
  have h2: "\<forall>q. 1 \<le> q \<and> q < 2 \<longrightarrow>
           ok (stargazers boundaryGH ''ryoppippi'' ''ccusage'' q) \<and>
           perPage \<le> length (json (stargazers boundaryGH ''ryoppippi'' ''ccusage'' q)) \<and>
           startOfYearISO ?pf (getFullYear ?pf 0) \<le> starred_at (last (json (stargazers boundaryGH ''ryoppippi'' ''ccusage'' q)))"
  proof (intro allI impI)
    fix q :: nat assume "1 \<le> q \<and> q < 2"
    then have "q = Suc 0" by simp
    then show "ok (stargazers boundaryGH ''ryoppippi'' ''ccusage'' q) \<and>
           perPage \<le> length (json (stargazers boundaryGH ''ryoppippi'' ''ccusage'' q)) \<and>
           startOfYearISO ?pf (getFullYear ?pf 0) \<le> starred_at (last (json (stargazers boundaryGH ''ryoppippi'' ''ccusage'' q)))"
      by (simp add: sg1 utc2025 respond_def ok_def perPage_def event_def)
  qed
  have h3: "ok (stargazers boundaryGH ''ryoppippi'' ''ccusage'' 2)"
    by (simp add: sg2 respond_def ok_def)
  have h4: "json (stargazers boundaryGH ''ryoppippi'' ''ccusage'' 2) = [] \<or>
         starred_at (last (json (stargazers boundaryGH ''ryoppippi'' ''ccusage'' 2))) < startOfYearISO ?pf (getFullYear ?pf 0) \<or>
         length (json (stargazers boundaryGH ''ryoppippi'' ''ccusage'' 2)) < perPage"
    by (simp add: sg2 utc2025 respond_def event_def)
  have two: "[1..<Suc 2] = [Suc 0, 2]"
    by (simp add: upt_conv_Cons)
  show ?thesis
    using counter_window [OF h1 h2 h3 h4]
    unfolding two by (simp add: sg1 sg2 utc2025 respond_def event_def)
qed

lemma one_two: "[1..<Suc 2] = [Suc 0, 2]"
  by (simp add: upt_conv_Cons)

lemma all_below_two: "P (Suc 0) \<Longrightarrow> \<forall>q. 1 \<le> q \<and> q < 2 \<longrightarrow> P q"
  by (auto simp: less_Suc_eq numeral_2_eq_2)

text \<open>
  Claim C2. When the stargazers endpoint answers page \<open>p\<close> with status 404, after
  full in-window pages 1 to \<open>p - 1\<close> that made the counter continue (and may have
  contributed events), the counter returns 0 and throws nothing.
\<close>

theorem counter_not_found:
  assumes "1 \<le> p"
    and "\<forall>q. 1 \<le> q \<and> q < p \<longrightarrow>
           ok (stargazers gh owner repo q) \<and> perPage \<le> length (json (stargazers gh owner repo q)) \<and>
           startOfYearISO pf (getFullYear pf k) \<le> starred_at (last (json (stargazers gh owner repo q)))"
    and "status (stargazers gh owner repo p) = 404"
  shows "getStarsThisYear gh pf k owner repo = Some (Inr 0, [1..<Suc p])"
proof -
  let ?fetch = "stargazers gh owner repo"
  let ?start = "startOfYearISO pf (getFullYear pf k)"
  obtain j where p: "p = 1 + j"
    using assms(1) by (metis le_Suc_ex)
  have before: "\<forall>q. 1 \<le> q \<and> q < 1 + j \<longrightarrow> ok (?fetch q) \<and> json (?fetch q) \<noteq> [] \<and>
            \<not> starred_at (last (json (?fetch q))) < ?start \<and> \<not> length (json (?fetch q)) < perPage"
    using assms(2) unfolding p by (auto simp: perPage_def)
  have "getStarsThisYear gh pf k owner repo = getStarsThisYear_loop ?fetch owner repo ?start 1 0 []"
    by (simp add: getStarsThisYear_def)
  also have "\<dots> = getStarsThisYear_loop ?fetch owner repo ?start (1 + j)
                    (0 + (\<Sum>q\<leftarrow>[1..<1 + j]. length (filter (\<lambda>star. ?start \<le> starred_at star) (json (?fetch q)))))
                    ([] @ [1..<1 + j])"
    by (rule stars_loop_prefix [OF before])
  also have "\<dots> = Some (Inr 0, ([] @ [1..<1 + j]) @ [1 + j])"
    using assms(3) unfolding p by (intro stars_loop_404)
  finally show ?thesis
    unfolding p by simp
qed

theorem counter_not_found_witness:
  "getStarsThisYear vanishedGH (utc (\<lambda>k. 2025)) 0 ''ryoppippi'' ''renamed'' = Some (Inr 0, [1, 2])
   \<and> length (filter (\<lambda>star. ''2025-01-01T00:00:00.000Z'' \<le> starred_at star)
        (json (stargazers vanishedGH ''ryoppippi'' ''renamed'' 1))) = 100"
proof -
  let ?pf = "utc (\<lambda>k. 2025)"
  let ?sg = "stargazers vanishedGH ''ryoppippi'' ''renamed''"
  have sg1: "?sg (Suc 0) = respond (replicate 100 (event ''2025-06-01T08:30:00Z''))"
    by (simp add: vanishedGH_def)
  have sg2: "?sg 2 = failWith 404 ''Not Found''"
    by (simp add: vanishedGH_def)
  have h1: "(1::nat) \<le> 2" by simp
  have h2: "\<forall>q. 1 \<le> q \<and> q < 2 \<longrightarrow>
           ok (?sg q) \<and> perPage \<le> length (json (?sg q)) \<and>
           startOfYearISO ?pf (getFullYear ?pf 0) \<le> starred_at (last (json (?sg q)))"
    by (rule all_below_two) (simp add: sg1 utc2025 respond_def ok_def perPage_def event_def)
  have h3: "status (?sg 2) = 404"
    by (simp add: sg2 failWith_def)
  show ?thesis
    using counter_not_found [OF h1 h2 h3]
    unfolding one_two by (simp add: sg1 respond_def event_def)
qed

section \<open>Properties of the repository lister\<close>

lemma repos_loop_next:
  assumes "ok (fetch page)" "perPage \<le> length (json (fetch page))"
  shows "getPublicRepos_loop fetch page repos fetched =
         getPublicRepos_loop fetch (Suc page)
           (repos @ filter (\<lambda>repo. \<not> isPrivate repo) (json (fetch page))) (fetched @ [page])"
  using assms by (subst getPublicRepos_loop.simps) (auto simp add: Let_def perPage_def)

lemma repos_loop_prefix:
  assumes "\<forall>q. page \<le> q \<and> q < page + k \<longrightarrow> ok (fetch q) \<and> perPage \<le> length (json (fetch q))"
  shows "getPublicRepos_loop fetch page repos fetched =
         getPublicRepos_loop fetch (page + k)
           (repos @ concat (map (\<lambda>q. filter (\<lambda>repo. \<not> isPrivate repo) (json (fetch q))) [page..<page + k]))
           (fetched @ [page..<page + k])"
  using assms
proof (induction k arbitrary: page repos fetched)
  case 0
  then show ?case by simp
next
  case (Suc k)
  have here: "ok (fetch page)" "perPage \<le> length (json (fetch page))"
    using Suc.prems by simp_all
  have rest: "\<forall>q. Suc page \<le> q \<and> q < Suc page + k \<longrightarrow> ok (fetch q) \<and> perPage \<le> length (json (fetch q))"
    using Suc.prems by simp
  have split: "[page..<page + Suc k] = page # [Suc page..<Suc page + k]"
    by (simp add: upt_conv_Cons)
  have "getPublicRepos_loop fetch page repos fetched =
        getPublicRepos_loop fetch (Suc page)
          (repos @ filter (\<lambda>repo. \<not> isPrivate repo) (json (fetch page))) (fetched @ [page])"
    using here by (rule repos_loop_next)
  also have "\<dots> = getPublicRepos_loop fetch (Suc page + k)
          ((repos @ filter (\<lambda>repo. \<not> isPrivate repo) (json (fetch page)))
             @ concat (map (\<lambda>q. filter (\<lambda>repo. \<not> isPrivate repo) (json (fetch q))) [Suc page..<Suc page + k]))
          ((fetched @ [page]) @ [Suc page..<Suc page + k])"
    by (rule Suc.IH [OF rest])
  finally show ?case
    unfolding split by simp
qed

lemma repos_loop_stop:
  assumes "ok (fetch page)" "length (json (fetch page)) < perPage"
  shows "getPublicRepos_loop fetch page repos fetched =
    Some (Inr (repos @ filter (\<lambda>repo. \<not> isPrivate repo) (json (fetch page))), fetched @ [page])"
  using assms by (subst getPublicRepos_loop.simps) (auto simp add: Let_def)

lemma repos_loop_error:
  assumes "\<not> ok (fetch page)"
  shows "getPublicRepos_loop fetch page repos fetched =
    Some (Inl (Error (''Failed to fetch repositories: '' @ statusText (fetch page))), fetched @ [page])"
  using assms by (subst getPublicRepos_loop.simps) (simp add: Let_def)

text \<open>
  Claim C4. When the pages before page \<open>p\<close> are full and page \<open>p\<close> has fewer than 100
  items (none included), the lister requests exactly the pages 1, 2, ..., \<open>p\<close> and
  returns the public repositories of these pages in order: a short first page ends it
  after one request, a full page followed by an empty page costs one more request.
\<close>

theorem lister_pages:
  assumes "1 \<le> p"
    and "\<forall>q. 1 \<le> q \<and> q < p \<longrightarrow>
           ok (userRepos gh username q) \<and> perPage \<le> length (json (userRepos gh username q))"
    and "ok (userRepos gh username p)"
    and "length (json (userRepos gh username p)) < perPage"
  shows "getPublicRepos gh username =
         Some (Inr (concat (map (\<lambda>q. filter (\<lambda>repo. \<not> isPrivate repo) (json (userRepos gh username q)))
                              [1..<Suc p])),
               [1..<Suc p])"
proof -
  let ?fetch = "userRepos gh username"
  obtain j where p: "p = 1 + j"
    using assms(1) by (metis le_Suc_ex)
  have before: "\<forall>q. 1 \<le> q \<and> q < 1 + j \<longrightarrow> ok (?fetch q) \<and> perPage \<le> length (json (?fetch q))"
    using assms(2) unfolding p by simp
  have "getPublicRepos gh username = getPublicRepos_loop ?fetch 1 [] []"
    by (simp add: getPublicRepos_def)
  also have "\<dots> = getPublicRepos_loop ?fetch (1 + j)
                    ([] @ concat (map (\<lambda>q. filter (\<lambda>repo. \<not> isPrivate repo) (json (?fetch q))) [1..<1 + j]))
                    ([] @ [1..<1 + j])"
    by (rule repos_loop_prefix [OF before])
  also have "\<dots> = Some (Inr (([] @ concat (map (\<lambda>q. filter (\<lambda>repo. \<not> isPrivate repo) (json (?fetch q))) [1..<1 + j]))
                             @ filter (\<lambda>repo. \<not> isPrivate repo) (json (?fetch (1 + j)))),
                        ([] @ [1..<1 + j]) @ [1 + j])"
    using assms(3,4) unfolding p by (intro repos_loop_stop)
  finally show ?thesis
    unfolding p by simp
qed

theorem lister_pages_witness:
  "getPublicRepos exampleGH ''ryoppippi'' =
     Some (Inr [repository ''A'' 5 False, repository ''B'' 10 False, repository ''C'' 0 False], [1])
   \<and> getPublicRepos fullPageGH ''ryoppippi'' =
     Some (Inr (replicate 100 (repository ''sandbox'' 0 False)), [1, 2])"
proof -
  have a: "getPublicRepos exampleGH ''ryoppippi'' =
     Some (Inr [repository ''A'' 5 False, repository ''B'' 10 False, repository ''C'' 0 False], [1])"
    using lister_pages [of 1 exampleGH "''ryoppippi''"]
    by (simp add: exampleGH_def respond_def ok_def perPage_def repository_def)
  let ?ur = "userRepos fullPageGH ''ryoppippi''"
  have ur1: "?ur (Suc 0) = respond (replicate 100 (repository ''sandbox'' 0 False))"
    by (simp add: fullPageGH_def)
  have ur2: "?ur 2 = respond []"
    by (simp add: fullPageGH_def)
  have h1: "(1::nat) \<le> 2" by simp
  have h2: "\<forall>q. 1 \<le> q \<and> q < 2 \<longrightarrow> ok (?ur q) \<and> perPage \<le> length (json (?ur q))"
    by (rule all_below_two) (simp add: ur1 respond_def ok_def perPage_def)
  have h3: "ok (?ur 2)"
    by (simp add: ur2 respond_def ok_def)
  have h4: "length (json (?ur 2)) < perPage"
    by (simp add: ur2 respond_def perPage_def)
  have b: "getPublicRepos fullPageGH ''ryoppippi'' =
     Some (Inr (replicate 100 (repository ''sandbox'' 0 False)), [1, 2])"
    using lister_pages [OF h1 h2 h3 h4]
    unfolding one_two by (simp add: ur1 ur2 respond_def repository_def)
  show ?thesis
    using a b by (rule conjI)
qed

text \<open>
  Claim C5, as the code has it. A response of the repository-list endpoint that is not
  2xx, status 404 included, ends the loop at that page with the error
  \<open>Failed to fetch repositories: <status text>\<close>; no status gives an empty list.
\<close>

theorem lister_fails:
  assumes "1 \<le> p"
    and "\<forall>q. 1 \<le> q \<and> q < p \<longrightarrow>
           ok (userRepos gh username q) \<and> perPage \<le> length (json (userRepos gh username q))"
    and "\<not> ok (userRepos gh username p)"
  shows "getPublicRepos gh username =
         Some (Inl (Error (''Failed to fetch repositories: '' @ statusText (userRepos gh username p))),
               [1..<Suc p])"
proof -
  let ?fetch = "userRepos gh username"
  obtain j where p: "p = 1 + j"
    using assms(1) by (metis le_Suc_ex)
  have before: "\<forall>q. 1 \<le> q \<and> q < 1 + j \<longrightarrow> ok (?fetch q) \<and> perPage \<le> length (json (?fetch q))"
    using assms(2) unfolding p by simp
  have "getPublicRepos gh username = getPublicRepos_loop ?fetch 1 [] []"
    by (simp add: getPublicRepos_def)
  also have "\<dots> = getPublicRepos_loop ?fetch (1 + j)
                    ([] @ concat (map (\<lambda>q. filter (\<lambda>repo. \<not> isPrivate repo) (json (?fetch q))) [1..<1 + j]))
                    ([] @ [1..<1 + j])"
    by (rule repos_loop_prefix [OF before])
  also have "\<dots> = Some (Inl (Error (''Failed to fetch repositories: '' @ statusText (?fetch (1 + j)))),
                        ([] @ [1..<1 + j]) @ [1 + j])"
    using assms(3) unfolding p by (intro repos_loop_error)
  finally show ?thesis
    unfolding p by simp
qed

theorem lister_fails_witness:
  "getPublicRepos unavailableGH ''ryoppippi'' =
     Some (Inl (Error ''Failed to fetch repositories: Not Found''), [1])
   \<and> getPublicRepos flakyGH ''ryoppippi'' =
     Some (Inl (Error ''Failed to fetch repositories: Bad Gateway''), [1, 2])"
proof -
  have a: "getPublicRepos unavailableGH ''ryoppippi'' =
     Some (Inl (Error ''Failed to fetch repositories: Not Found''), [1])"
    using lister_fails [of 1 unavailableGH "''ryoppippi''"]
    by (simp add: unavailableGH_def failWith_def ok_def)
  let ?ur = "userRepos flakyGH ''ryoppippi''"
  have ur1: "?ur (Suc 0) = respond (replicate 100 (repository ''sandbox'' 0 False))"
    by (simp add: flakyGH_def)
  have ur2: "?ur 2 = failWith 502 ''Bad Gateway''"
    by (simp add: flakyGH_def)
  have h1: "(1::nat) \<le> 2" by simp
  have h2: "\<forall>q. 1 \<le> q \<and> q < 2 \<longrightarrow> ok (?ur q) \<and> perPage \<le> length (json (?ur q))"
    by (rule all_below_two) (simp add: ur1 respond_def ok_def perPage_def)
  have h3: "\<not> ok (?ur 2)"
    by (simp add: ur2 failWith_def ok_def)
  have b: "getPublicRepos flakyGH ''ryoppippi'' =
     Some (Inl (Error ''Failed to fetch repositories: Bad Gateway''), [1, 2])"
    using lister_fails [OF h1 h2 h3]
    unfolding one_two by (simp add: ur2 failWith_def)
  show ?thesis
    using a b by (rule conjI)
qed

theorem lister_not_found_counterexample:
  "status (userRepos unavailableGH ''ryoppippi'' 1) = 404 \<and>
   map_option fst (getPublicRepos unavailableGH ''ryoppippi'') \<noteq> Some (Inr [])"
  by (simp add: getPublicRepos_def repos_loop_error unavailableGH_def failWith_def ok_def)

section \<open>Properties of the limiter and of \<open>Promise.all\<close>\<close>

lemma pLimit_length: "length (pLimit slots ts) = length ts"
  by (induction slots ts rule: pLimit.induct) simp_all

lemma pLimit_nth:
  assumes "i < length ts" "length (filter (\<lambda>t. t = None) (take i ts)) < slots"
  shows "pLimit slots ts ! i = ts ! i"
  using assms
proof (induction slots ts arbitrary: i rule: pLimit.induct)
  case (1 slots)
  then show ?case by simp
next
  case (2 t ts)
  then show ?case by simp
next
  case (3 slots ts)
  then show ?case by (cases i) simp_all
next
  case (4 slots r ts)
  then show ?case by (cases i) simp_all
qed

lemma pLimit_settled:
  assumes "None \<notin> set (pLimit slots ts)"
  shows "pLimit slots ts = ts"
  using assms by (induction slots ts rule: pLimit.induct) simp_all

lemma pLimit_all:
  assumes "None \<notin> set ts" "0 < slots"
  shows "pLimit slots ts = ts"
  using assms
proof (induction slots ts rule: pLimit.induct)
  case (4 slots r ts)
  then show ?case by simp
qed simp_all

lemma fulfilled_Some:
  "fulfilled ps = Some vs \<longleftrightarrow> ps = map (\<lambda>v. Some (Inr v)) vs"
proof (induction ps arbitrary: vs rule: fulfilled.induct)
  case 1
  then show ?case by auto
next
  case (2 v ps)
  then show ?case by (cases vs) auto
qed auto

lemma firstRejection_None:
  "firstRejection settled ps = None \<longleftrightarrow> (\<forall>i<length ps. \<not> rejected (ps ! i))"
proof
  assume none: "firstRejection settled ps = None"
  show "\<forall>i<length ps. \<not> rejected (ps ! i)"
  proof (intro allI impI notI)
    fix i assume i: "i < length ps" "rejected (ps ! i)"
    then have "i \<in> set (settled @ [0..<length ps])" by simp
    then obtain j where j: "find (\<lambda>i. i < length ps \<and> rejected (ps ! i)) (settled @ [0..<length ps]) = Some j"
      using i by (cases "find (\<lambda>i. i < length ps \<and> rejected (ps ! i)) (settled @ [0..<length ps])")
                 (auto simp: find_None_iff)
    then have "j < length ps \<and> rejected (ps ! j)"
      by (auto simp: find_Some_iff)
    then obtain e where "ps ! j = Some (Inl e)"
      by (auto simp: rejected_def split: option.splits sum.splits)
    then show False
      using none j by (simp add: firstRejection_def)
  qed
next
  assume "\<forall>i<length ps. \<not> rejected (ps ! i)"
  then have "find (\<lambda>i. i < length ps \<and> rejected (ps ! i)) (settled @ [0..<length ps]) = None"
    by (auto simp: find_None_iff)
  then show "firstRejection settled ps = None"
    by (simp add: firstRejection_def)
qed

lemma firstRejection_Some:
  assumes "firstRejection settled ps = Some e"
  shows "\<exists>i<length ps. ps ! i = Some (Inl e)"
proof -
  obtain j where j: "find (\<lambda>i. i < length ps \<and> rejected (ps ! i)) (settled @ [0..<length ps]) = Some j"
    using assms by (auto simp: firstRejection_def split: option.splits)
  then have "j < length ps"
    by (auto simp: find_Some_iff)
  moreover have "ps ! j = Some (Inl e)"
    using assms j by (auto simp: firstRejection_def split: option.splits sum.splits)
  ultimately show ?thesis by blast
qed

lemma promiseAll_rejects:
  assumes "i < length ps" "ps ! i = Some (Inl e)"
  shows "\<exists>j e'. j < length ps \<and> ps ! j = Some (Inl e') \<and> promiseAll settled ps = Some (Inl e')"
proof -
  have "rejected (ps ! i)"
    using assms(2) by (simp add: rejected_def)
  then have "firstRejection settled ps \<noteq> None"
    using assms(1) by (auto simp: firstRejection_None)
  then obtain e' where e': "firstRejection settled ps = Some e'"
    by auto
  then obtain j where "j < length ps" "ps ! j = Some (Inl e')"
    using firstRejection_Some by blast
  then show ?thesis
    using e' by (auto simp: promiseAll_def)
qed

lemma promiseAll_fulfils:
  "promiseAll settled ps = Some (Inr vs) \<longleftrightarrow> ps = map (\<lambda>v. Some (Inr v)) vs"
proof
  assume "promiseAll settled ps = Some (Inr vs)"
  then have "fulfilled ps = Some vs"
    by (auto simp: promiseAll_def split: option.splits)
  then show "ps = map (\<lambda>v. Some (Inr v)) vs"
    by (simp add: fulfilled_Some)
next
  assume ps: "ps = map (\<lambda>v. Some (Inr v)) vs"
  then have "\<forall>i<length ps. \<not> rejected (ps ! i)"
    by (simp add: rejected_def)
  then have "firstRejection settled ps = None"
    by (simp add: firstRejection_None)
  moreover have "fulfilled ps = Some vs"
    using ps by (simp add: fulfilled_Some)
  ultimately show "promiseAll settled ps = Some (Inr vs)"
    by (simp add: promiseAll_def)
qed

section \<open>Properties of the aggregation\<close>

lemma counter_one_page:
  assumes "ok (stargazers gh owner repo 1)"
    and "json (stargazers gh owner repo 1) = [] \<or>
         starred_at (last (json (stargazers gh owner repo 1))) < startOfYearISO pf (getFullYear pf k) \<or>
         length (json (stargazers gh owner repo 1)) < perPage"
  shows "getStarsThisYear gh pf k owner repo =
         Some (Inr (length (filter (\<lambda>star. startOfYearISO pf (getFullYear pf k) \<le> starred_at star)
                              (json (stargazers gh owner repo 1)))), [1])"
  using assms
    stars_loop_stop [where fetch = "stargazers gh owner repo" and page = 1 and n = 0 and fetched = "[]"
      and start = "startOfYearISO pf (getFullYear pf k)" and owner = owner and repo = repo]
  by (simp add: getStarsThisYear_def)

lemma counter_fails:
  assumes "1 \<le> p"
    and "\<forall>q. 1 \<le> q \<and> q < p \<longrightarrow>
           ok (stargazers gh owner repo q) \<and> perPage \<le> length (json (stargazers gh owner repo q)) \<and>
           startOfYearISO pf (getFullYear pf k) \<le> starred_at (last (json (stargazers gh owner repo q)))"
    and "\<not> ok (stargazers gh owner repo p)"
    and "status (stargazers gh owner repo p) \<noteq> 404"
  shows "getStarsThisYear gh pf k owner repo =
         Some (Inl (Error (''Failed to fetch stargazers for '' @ owner @ ''/'' @ repo @ '': ''
                           @ statusText (stargazers gh owner repo p))), [1..<Suc p])"
proof -
  let ?fetch = "stargazers gh owner repo"
  let ?start = "startOfYearISO pf (getFullYear pf k)"
  obtain j where p: "p = 1 + j"
    using assms(1) by (metis le_Suc_ex)
  have before: "\<forall>q. 1 \<le> q \<and> q < 1 + j \<longrightarrow> ok (?fetch q) \<and> json (?fetch q) \<noteq> [] \<and>
            \<not> starred_at (last (json (?fetch q))) < ?start \<and> \<not> length (json (?fetch q)) < perPage"
    using assms(2) unfolding p by (auto simp: perPage_def)
  have "getStarsThisYear gh pf k owner repo = getStarsThisYear_loop ?fetch owner repo ?start 1 0 []"
    by (simp add: getStarsThisYear_def)
  also have "\<dots> = getStarsThisYear_loop ?fetch owner repo ?start (1 + j)
                    (0 + (\<Sum>q\<leftarrow>[1..<1 + j]. length (filter (\<lambda>star. ?start \<le> starred_at star) (json (?fetch q)))))
                    ([] @ [1..<1 + j])"
    by (rule stars_loop_prefix [OF before])
  also have "\<dots> = Some (Inl (Error (''Failed to fetch stargazers for '' @ owner @ ''/'' @ repo @ '': ''
                           @ statusText (?fetch (1 + j)))), ([] @ [1..<1 + j]) @ [1 + j])"
    using assms(3,4) unfolding p by (intro stars_loop_error)
  finally show ?thesis
    unfolding p by simp
qed

lemma task_None: "task gh pf username k repo = None \<longleftrightarrow>
    getStarsThisYear gh pf k username (Repository.name repo) = None"
  by (auto simp: task_def split: option.splits sum.splits prod.splits)

lemma map_enumerate_nth:
  "map (\<lambda>(k, x). f k x) (enumerate (Suc 0) xs) = map (\<lambda>j. f (Suc j) (xs ! j)) [0..<length xs]"
  by (rule nth_equalityI) (simp_all add: nth_enumerate_eq)

lemma tasks_nth:
  "tasks gh pf username repos =
     pLimit 5 (map (\<lambda>j. task gh pf username (Suc j) (filter (\<lambda>repo. stargazers_count repo > 0) repos ! j))
                 [0..<length (filter (\<lambda>repo. stargazers_count repo > 0) repos)])"
  by (simp add: tasks_def Let_def map_enumerate_nth)

lemma tasks_length:
  "length (tasks gh pf username repos) = length (filter (\<lambda>repo. stargazers_count repo > 0) repos)"
  by (simp add: tasks_nth pLimit_length)

lemma tasks_started:
  assumes "starred = filter (\<lambda>repo. stargazers_count repo > 0) repos"
    and "i < length starred"
    and "length (filter (\<lambda>j. getStarsThisYear gh pf (Suc j) username (Repository.name (starred ! j)) = None)
                   [0..<i]) < 5"
  shows "tasks gh pf username repos ! i = task gh pf username (Suc i) (starred ! i)"
proof -
  let ?f = "\<lambda>j. task gh pf username (Suc j) (starred ! j)"
  have take: "take i (map ?f [0..<length starred]) = map ?f [0..<i]"
    using assms(2) by (simp add: take_map)
  have "length (filter (\<lambda>t. t = None) (take i (map ?f [0..<length starred])))
        = length (filter (\<lambda>j. ?f j = None) [0..<i])"
    unfolding take by (simp add: filter_map comp_def)
  also have "\<dots> < 5"
    using assms(3) by (simp add: task_None)
  finally have "pLimit 5 (map ?f [0..<length starred]) ! i = map ?f [0..<length starred] ! i"
    using assms(2) by (intro pLimit_nth) simp_all
  then show ?thesis
    using assms(2) unfolding tasks_nth assms(1) [symmetric] by simp
qed

lemma stars_loop_thrown:
  assumes "getStarsThisYear_loop fetch owner repo start page n fetched = Some y"
  shows "\<forall>e. fst y = Inl e \<longrightarrow>
           (\<exists>q. \<not> ok (fetch q) \<and> status (fetch q) \<noteq> 404 \<and>
                e = Error (''Failed to fetch stargazers for '' @ owner @ ''/'' @ repo @ '': ''
                           @ statusText (fetch q)))"
proof (rule getStarsThisYear_loop.raw_induct [where P = "\<lambda>fetch owner repo start page n fetched y.
         \<forall>e. fst y = Inl e \<longrightarrow>
           (\<exists>q. \<not> ok (fetch q) \<and> status (fetch q) \<noteq> 404 \<and>
                e = Error (''Failed to fetch stargazers for '' @ owner @ ''/'' @ repo @ '': ''
                           @ statusText (fetch q)))",
       OF _ assms], goal_cases)
  case (1 loop fetch owner repo start page n fetched y)
  show ?case
  proof (cases "ok (fetch page) \<and> json (fetch page) \<noteq> [] \<and>
            \<not> starred_at (last (json (fetch page))) < start \<and> \<not> length (json (fetch page)) < perPage")
    case True
    then have "loop fetch owner repo start (page + 1) (countPage start (json (fetch page)) n) (fetched @ [page]) = Some y"
      using 1(2) by (simp add: Let_def)
    then show ?thesis
      by (rule 1(1))
  next
    case False
    consider (notok) "\<not> ok (fetch page)"
      | (empty) "ok (fetch page)" "json (fetch page) = []"
      | (old) "ok (fetch page)" "json (fetch page) \<noteq> []" "starred_at (last (json (fetch page))) < start"
      | (short) "ok (fetch page)" "json (fetch page) \<noteq> []" "\<not> starred_at (last (json (fetch page))) < start"
          "length (json (fetch page)) < perPage"
      using False by blast
    then show ?thesis
    proof cases
      case notok
      then show ?thesis using 1(2) by (cases "status (fetch page) = 404") (auto simp add: Let_def)
    next
      case empty
      then show ?thesis using 1(2) by (auto simp add: Let_def)
    next
      case old
      then show ?thesis using 1(2) by (auto simp add: Let_def)
    next
      case short
      then show ?thesis using 1(2) by (auto simp add: Let_def)
    qed
  qed
qed

lemma counter_thrown:
  assumes "getStarsThisYear gh pf k owner repo = Some (Inl e, fetched)"
  shows "\<exists>q. \<not> ok (stargazers gh owner repo q) \<and> status (stargazers gh owner repo q) \<noteq> 404 \<and>
              e = Error (''Failed to fetch stargazers for '' @ owner @ ''/'' @ repo @ '': ''
                         @ statusText (stargazers gh owner repo q))"
  using assms stars_loop_thrown [of "stargazers gh owner repo" owner repo
      "startOfYearISO pf (getFullYear pf k)" 1 0 "[]" "(Inl e, fetched)"]
  by (simp add: getStarsThisYear_def)

lemma pLimit_Some:
  assumes "j < length ts" "pLimit slots ts ! j = Some x"
  shows "ts ! j = Some x"
  using assms
proof (induction slots ts arbitrary: j rule: pLimit.induct)
  case (1 slots)
  then show ?case by simp
next
  case (2 t ts)
  then show ?case by (cases j) simp_all
next
  case (3 slots ts)
  then show ?case by (cases j) simp_all
next
  case (4 slots r ts)
  then show ?case by (cases j) simp_all
qed

lemma promiseAll_first:
  assumes "i < length ps" "ps ! i = Some (Inl e)"
  shows "promiseAll (i # rest) ps = Some (Inl e)"
  using assms by (simp add: promiseAll_def firstRejection_def rejected_def)

lemma task_thrown:
  assumes "map_option fst (task gh pf username k repo) = Some (Inl e)"
  shows "\<exists>fetched. getStarsThisYear gh pf k username (Repository.name repo) = Some (Inl e, fetched)"
  using assms by (auto simp: task_def split: option.splits sum.splits prod.splits)

lemma aggregate_rejected:
  assumes "aggregate gh pf settled username repos = Some (Inl e)"
  shows "\<exists>j fetched. j < length (filter (\<lambda>repo. stargazers_count repo > 0) repos) \<and>
           getStarsThisYear gh pf (Suc j) username
             (Repository.name (filter (\<lambda>repo. stargazers_count repo > 0) repos ! j)) = Some (Inl e, fetched)"
proof -
  let ?starred = "filter (\<lambda>repo. stargazers_count repo > 0) repos"
  let ?raw = "map (\<lambda>j. task gh pf username (Suc j) (?starred ! j)) [0..<length ?starred]"
  let ?ps = "map (map_option fst) (tasks gh pf username repos)"
  have "firstRejection settled ?ps = Some e"
    using assms by (auto simp: aggregate_def promiseAll_def split: option.splits)
  then obtain j where j: "j < length ?ps" "?ps ! j = Some (Inl e)"
    using firstRejection_Some by blast
  then have len: "j < length ?starred"
    by (simp add: tasks_length)
  obtain req where "tasks gh pf username repos ! j = Some (Inl e, req)"
    using j by (cases "tasks gh pf username repos ! j") (auto simp: tasks_length)
  then have limited: "pLimit 5 ?raw ! j = Some (Inl e, req)"
    by (simp add: tasks_nth)
  have "j < length ?raw"
    using len by simp
  then have "?raw ! j = Some (Inl e, req)"
    using limited by (rule pLimit_Some)
  then have "map_option fst (task gh pf username (Suc j) (?starred ! j)) = Some (Inl e)"
    using len by simp
  then obtain fetched where
    "getStarsThisYear gh pf (Suc j) username (Repository.name (?starred ! j)) = Some (Inl e, fetched)"
    using task_thrown by blast
  then show ?thesis
    using len by blast
qed

text \<open>
  Claim C6. When the stargazers endpoint of an eligible repository answers with a
  status that is neither 2xx nor 404 (on page \<open>p\<close>, after pages that made the counter
  continue), the counter throws the error naming \<open>owner/repository\<close> and the status
  text. When the task of that repository is started (fewer than five earlier counters
  never return), \<open>Promise.all\<close> rejects with the error that the counter of one of
  the eligible repositories threw for a response that was neither 2xx nor 404, an error
  naming that repository, and the main program ends with the same error and no result
  list. It is the error of this very repository when its task is the first to settle
  or when no other counter throws.
\<close>

theorem hard_error_aborts:
  assumes "starred = filter (\<lambda>repo. stargazers_count repo > 0) repos"
    and "i < length starred"
    and "repo = Repository.name (starred ! i)"
    and "length (filter (\<lambda>j. getStarsThisYear gh pf (Suc j) username (Repository.name (starred ! j)) = None)
                   [0..<i]) < 5"
    and "1 \<le> p"
    and "\<forall>q. 1 \<le> q \<and> q < p \<longrightarrow>
           ok (stargazers gh username repo q) \<and> perPage \<le> length (json (stargazers gh username repo q)) \<and>
           startOfYearISO pf (getFullYear pf (Suc i)) \<le> starred_at (last (json (stargazers gh username repo q)))"
    and "\<not> ok (stargazers gh username repo p)"
    and "status (stargazers gh username repo p) \<noteq> 404"
  shows "getStarsThisYear gh pf (Suc i) username repo =
           Some (Inl (Error (''Failed to fetch stargazers for '' @ username @ ''/'' @ repo @ '': ''
                             @ statusText (stargazers gh username repo p))), [1..<Suc p])
         \<and> (\<exists>j q e thrownAt.
               j < length starred
             \<and> \<not> ok (stargazers gh username (Repository.name (starred ! j)) q)
             \<and> status (stargazers gh username (Repository.name (starred ! j)) q) \<noteq> 404
             \<and> e = Error (''Failed to fetch stargazers for '' @ username @ ''/''
                          @ Repository.name (starred ! j) @ '': ''
                          @ statusText (stargazers gh username (Repository.name (starred ! j)) q))
             \<and> getStarsThisYear gh pf (Suc j) username (Repository.name (starred ! j)) = Some (Inl e, thrownAt)
             \<and> aggregate gh pf settled username repos = Some (Inl e)
             \<and> (getPublicRepos gh username = Some (Inr repos, fetched)
                  \<longrightarrow> main gh pf settled username = Some (Inl e)))
         \<and> ((\<exists>rest. settled = i # rest)
              \<or> (\<forall>j<length starred. j \<noteq> i \<longrightarrow>
                    (\<forall>e thrownAt. getStarsThisYear gh pf (Suc j) username (Repository.name (starred ! j))
                                    \<noteq> Some (Inl e, thrownAt)))
             \<longrightarrow> aggregate gh pf settled username repos =
                   Some (Inl (Error (''Failed to fetch stargazers for '' @ username @ ''/'' @ repo @ '': ''
                                     @ statusText (stargazers gh username repo p))))
               \<and> (getPublicRepos gh username = Some (Inr repos, fetched)
                    \<longrightarrow> main gh pf settled username =
                        Some (Inl (Error (''Failed to fetch stargazers for '' @ username @ ''/'' @ repo @ '': ''
                                          @ statusText (stargazers gh username repo p))))))"
proof -
  let ?e = "Error (''Failed to fetch stargazers for '' @ username @ ''/'' @ repo @ '': ''
                             @ statusText (stargazers gh username repo p))"
  let ?ps = "map (map_option fst) (tasks gh pf username repos)"
  have thrown: "getStarsThisYear gh pf (Suc i) username repo = Some (Inl ?e, [1..<Suc p])"
    using assms(5-8) by (rule counter_fails)
  have "tasks gh pf username repos ! i = task gh pf username (Suc i) (starred ! i)"
    using assms(1,2,4) by (rule tasks_started)
  also have "\<dots> = Some (Inl ?e, (repo, [1..<Suc p]))"
    using thrown by (simp add: task_def assms(3))
  finally have at_i: "?ps ! i = Some (Inl ?e)"
    using assms(2) by (simp add: tasks_length assms(1))
  have i: "i < length ?ps"
    using assms(2) by (simp add: tasks_length assms(1))
  have to_main: "getPublicRepos gh username = Some (Inr repos, fetched)
              \<longrightarrow> main gh pf settled username = Some (Inl e)"
    if "aggregate gh pf settled username repos = Some (Inl e)" for e
    using that by (simp add: main_def)
  obtain e' where rejects: "aggregate gh pf settled username repos = Some (Inl e')"
    unfolding aggregate_def using promiseAll_rejects [OF i at_i] by blast
  obtain j thrownAt where j: "j < length starred"
    "getStarsThisYear gh pf (Suc j) username (Repository.name (starred ! j)) = Some (Inl e', thrownAt)"
    using aggregate_rejected [OF rejects] unfolding assms(1) [symmetric] by blast
  obtain q where q: "\<not> ok (stargazers gh username (Repository.name (starred ! j)) q)"
    "status (stargazers gh username (Repository.name (starred ! j)) q) \<noteq> 404"
    "e' = Error (''Failed to fetch stargazers for '' @ username @ ''/''
                          @ Repository.name (starred ! j) @ '': ''
                          @ statusText (stargazers gh username (Repository.name (starred ! j)) q))"
    using counter_thrown [OF j(2)] by blast
  have some: "\<exists>j q e thrownAt.
               j < length starred
             \<and> \<not> ok (stargazers gh username (Repository.name (starred ! j)) q)
             \<and> status (stargazers gh username (Repository.name (starred ! j)) q) \<noteq> 404
             \<and> e = Error (''Failed to fetch stargazers for '' @ username @ ''/''
                          @ Repository.name (starred ! j) @ '': ''
                          @ statusText (stargazers gh username (Repository.name (starred ! j)) q))
             \<and> getStarsThisYear gh pf (Suc j) username (Repository.name (starred ! j)) = Some (Inl e, thrownAt)
             \<and> aggregate gh pf settled username repos = Some (Inl e)
             \<and> (getPublicRepos gh username = Some (Inr repos, fetched)
                  \<longrightarrow> main gh pf settled username = Some (Inl e))"
    using j q rejects to_main [OF rejects] by blast
  have this_one: "aggregate gh pf settled username repos = Some (Inl ?e)"
    if "(\<exists>rest. settled = i # rest)
        \<or> (\<forall>j<length starred. j \<noteq> i \<longrightarrow>
              (\<forall>e thrownAt. getStarsThisYear gh pf (Suc j) username (Repository.name (starred ! j))
                              \<noteq> Some (Inl e, thrownAt)))"
    using that
  proof
    assume "\<exists>rest. settled = i # rest"
    then show ?thesis
      unfolding aggregate_def using promiseAll_first [OF i at_i] by auto
  next
    assume "\<forall>j<length starred. j \<noteq> i \<longrightarrow>
              (\<forall>e thrownAt. getStarsThisYear gh pf (Suc j) username (Repository.name (starred ! j))
                              \<noteq> Some (Inl e, thrownAt))"
    then have "j = i"
      using j by blast
    then have "e' = ?e"
      using j(2) thrown by (simp add: assms(3))
    then show ?thesis
      using rejects by simp
  qed
  have only: "(\<exists>rest. settled = i # rest)
              \<or> (\<forall>j<length starred. j \<noteq> i \<longrightarrow>
                    (\<forall>e thrownAt. getStarsThisYear gh pf (Suc j) username (Repository.name (starred ! j))
                                    \<noteq> Some (Inl e, thrownAt)))
             \<longrightarrow> aggregate gh pf settled username repos = Some (Inl ?e)
               \<and> (getPublicRepos gh username = Some (Inr repos, fetched)
                    \<longrightarrow> main gh pf settled username = Some (Inl ?e))"
    using this_one to_main by blast
  show ?thesis
    using thrown some only by (intro conjI)
qed

lemma broken_A:
  "getStarsThisYear brokenGH (utc (\<lambda>k. 2025)) k ''ryoppippi'' ''A'' = Some (Inr 1, [1])"
proof -
  let ?pf = "utc (\<lambda>k. 2025)"
  have sg: "stargazers brokenGH ''ryoppippi'' ''A'' (Suc 0) = respond [event ''2025-05-20T10:00:00Z'']"
    by (simp add: brokenGH_def)
  have h1: "ok (stargazers brokenGH ''ryoppippi'' ''A'' 1)"
    by (simp add: sg respond_def ok_def)
  have h2: "json (stargazers brokenGH ''ryoppippi'' ''A'' 1) = [] \<or>
         starred_at (last (json (stargazers brokenGH ''ryoppippi'' ''A'' 1)))
           < startOfYearISO ?pf (getFullYear ?pf k) \<or>
         length (json (stargazers brokenGH ''ryoppippi'' ''A'' 1)) < perPage"
    by (simp add: sg respond_def perPage_def)
  show ?thesis
    using counter_one_page [OF h1 h2] by (simp add: sg utc2025 respond_def event_def)
qed

lemma broken_listed:
  "getPublicRepos brokenGH ''ryoppippi'' =
     Some (Inr [repository ''A'' 5 False, repository ''B'' 10 False], [1])"
proof -
  have "getPublicRepos brokenGH ''ryoppippi'' = Some (Inr ([] @ filter (\<lambda>repo. \<not> isPrivate repo)
           (json (userRepos brokenGH ''ryoppippi'' 1))), [] @ [1])"
    unfolding getPublicRepos_def
    by (rule repos_loop_stop) (simp_all add: brokenGH_def respond_def ok_def perPage_def)
  then show ?thesis
    by (simp add: brokenGH_def respond_def repository_def)
qed

theorem hard_error_aborts_witness:
  "getStarsThisYear brokenGH (utc (\<lambda>k. 2025)) (Suc 1) ''ryoppippi'' ''B'' =
     Some (Inl (Error ''Failed to fetch stargazers for ryoppippi/B: Internal Server Error''), [1, 2])
   \<and> aggregate brokenGH (utc (\<lambda>k. 2025)) [] ''ryoppippi''
        [repository ''A'' 5 False, repository ''B'' 10 False]
      = Some (Inl (Error ''Failed to fetch stargazers for ryoppippi/B: Internal Server Error''))
   \<and> main brokenGH (utc (\<lambda>k. 2025)) [] ''ryoppippi''
      = Some (Inl (Error ''Failed to fetch stargazers for ryoppippi/B: Internal Server Error''))"
proof -
  let ?pf = "utc (\<lambda>k. 2025)"
  let ?repos = "[repository ''A'' 5 False, repository ''B'' 10 False]"
  let ?sg = "stargazers brokenGH ''ryoppippi'' ''B''"
  have sg1: "?sg (Suc 0) = respond (replicate 100 (event ''2025-02-14T18:00:00Z''))"
    by (simp add: brokenGH_def)
  have sg2: "?sg 2 = failWith 500 ''Internal Server Error''"
    by (simp add: brokenGH_def)
  have h1: "?repos = filter (\<lambda>repo. stargazers_count repo > 0) ?repos"
    by (simp add: repository_def)
  have h2: "1 < length ?repos" by simp
  have h3: "''B'' = Repository.name (?repos ! 1)"
    by (simp add: repository_def)
  have "length (filter (\<lambda>j. getStarsThisYear brokenGH ?pf (Suc j) ''ryoppippi''
                         (Repository.name (?repos ! j)) = None) [0..<1]) \<le> length [0..<(1::nat)]"
    by (rule length_filter_le)
  then have h4: "length (filter (\<lambda>j. getStarsThisYear brokenGH ?pf (Suc j) ''ryoppippi''
                         (Repository.name (?repos ! j)) = None) [0..<1]) < 5"
    by simp
  have h5: "(1::nat) \<le> 2" by simp
  have h6: "\<forall>q. 1 \<le> q \<and> q < 2 \<longrightarrow>
           ok (?sg q) \<and> perPage \<le> length (json (?sg q)) \<and>
           startOfYearISO ?pf (getFullYear ?pf (Suc 1)) \<le> starred_at (last (json (?sg q)))"
    by (rule all_below_two) (simp add: sg1 utc2025 respond_def ok_def perPage_def event_def)
  have h7: "\<not> ok (?sg 2)"
    by (simp add: sg2 failWith_def ok_def)
  have h8: "status (?sg 2) \<noteq> 404"
    by (simp add: sg2 failWith_def)
  have others: "\<forall>j<length ?repos. j \<noteq> 1 \<longrightarrow>
      (\<forall>e thrownAt. getStarsThisYear brokenGH ?pf (Suc j) ''ryoppippi'' (Repository.name (?repos ! j))
                      \<noteq> Some (Inl e, thrownAt))"
    by (auto simp: less_Suc_eq broken_A repository_def)
  note all = hard_error_aborts [OF h1 h2 h3 h4 h5 h6 h7 h8, of "[]" "[1]"]
  have a: "getStarsThisYear brokenGH ?pf (Suc 1) ''ryoppippi'' ''B'' =
     Some (Inl (Error ''Failed to fetch stargazers for ryoppippi/B: Internal Server Error''), [1, 2])"
    using all [THEN conjunct1] unfolding one_two by (simp add: sg2 failWith_def)
  have "aggregate brokenGH ?pf [] ''ryoppippi'' ?repos =
          Some (Inl (Error (''Failed to fetch stargazers for '' @ ''ryoppippi'' @ ''/'' @ ''B'' @ '': ''
                            @ statusText (?sg 2))))
        \<and> (getPublicRepos brokenGH ''ryoppippi'' = Some (Inr ?repos, [1])
             \<longrightarrow> main brokenGH ?pf [] ''ryoppippi'' =
                 Some (Inl (Error (''Failed to fetch stargazers for '' @ ''ryoppippi'' @ ''/'' @ ''B'' @ '': ''
                                   @ statusText (?sg 2)))))"
    using all [THEN conjunct2, THEN conjunct2] others by blast
  then have b: "aggregate brokenGH ?pf [] ''ryoppippi'' ?repos
      = Some (Inl (Error ''Failed to fetch stargazers for ryoppippi/B: Internal Server Error''))"
    and c: "main brokenGH ?pf [] ''ryoppippi''
      = Some (Inl (Error ''Failed to fetch stargazers for ryoppippi/B: Internal Server Error''))"
    using broken_listed by (simp_all add: sg2 failWith_def)
  show ?thesis
    using a b c by (intro conjI)
qed


lemma tasks_all_return:
  assumes "starred = filter (\<lambda>repo. stargazers_count repo > 0) repos"
    and "\<forall>j<length starred.
           getStarsThisYear gh pf (Suc j) username (Repository.name (starred ! j)) = Some (Inr (cnt j), pages j)"
  shows "tasks gh pf username repos =
         map (\<lambda>j. Some (Inr \<lparr> name = Repository.name (starred ! j),
                                fullName = full_name (starred ! j),
                                totalStars = stargazers_count (starred ! j),
                                starsThisYear = cnt j,
                                url = html_url (starred ! j) \<rparr>,
                          (Repository.name (starred ! j), pages j)))
             [0..<length starred]"
proof -
  let ?raw = "map (\<lambda>j. task gh pf username (Suc j) (starred ! j)) [0..<length starred]"
  have raw: "?raw = map (\<lambda>j. Some (Inr \<lparr> name = Repository.name (starred ! j),
                                fullName = full_name (starred ! j),
                                totalStars = stargazers_count (starred ! j),
                                starsThisYear = cnt j,
                                url = html_url (starred ! j) \<rparr>,
                          (Repository.name (starred ! j), pages j)))
             [0..<length starred]"
    using assms(2) by (intro map_cong refl) (simp add: task_def)
  have "None \<notin> set ?raw"
    unfolding raw by auto
  then have "pLimit 5 ?raw = ?raw"
    by (rule pLimit_all) simp
  then show ?thesis
    unfolding tasks_nth assms(1) [symmetric] raw .
qed


lemma example_A:
  "getStarsThisYear exampleGH (utc (\<lambda>k. 2025)) k ''ryoppippi'' ''A'' = Some (Inr 3, [1])"
proof -
  let ?pf = "utc (\<lambda>k. 2025)"
  have sg: "stargazers exampleGH ''ryoppippi'' ''A'' (Suc 0) =
      respond [event ''2025-05-20T10:00:00Z'', event ''2025-03-02T09:15:00Z'',
               event ''2025-01-01T00:00:00Z'', event ''2024-11-11T11:11:11Z'',
               event ''2024-02-29T23:00:00Z'']"
    by (simp add: exampleGH_def)
  have h1: "ok (stargazers exampleGH ''ryoppippi'' ''A'' 1)"
    by (simp add: sg respond_def ok_def)
  have h2: "json (stargazers exampleGH ''ryoppippi'' ''A'' 1) = [] \<or>
         starred_at (last (json (stargazers exampleGH ''ryoppippi'' ''A'' 1)))
           < startOfYearISO ?pf (getFullYear ?pf k) \<or>
         length (json (stargazers exampleGH ''ryoppippi'' ''A'' 1)) < perPage"
    by (simp add: sg respond_def perPage_def)
  show ?thesis
    using counter_one_page [OF h1 h2] by (simp add: sg utc2025 respond_def event_def)
qed

lemma example_B:
  "getStarsThisYear exampleGH (utc (\<lambda>k. 2025)) k ''ryoppippi'' ''B'' = Some (Inr 0, [1])"
proof -
  let ?pf = "utc (\<lambda>k. 2025)"
  have sg: "stargazers exampleGH ''ryoppippi'' ''B'' (Suc 0) = respond (replicate 10 (event ''2024-07-07T07:07:07Z''))"
    by (simp add: exampleGH_def)
  have h1: "ok (stargazers exampleGH ''ryoppippi'' ''B'' 1)"
    by (simp add: sg respond_def ok_def)
  have h2: "json (stargazers exampleGH ''ryoppippi'' ''B'' 1) = [] \<or>
         starred_at (last (json (stargazers exampleGH ''ryoppippi'' ''B'' 1)))
           < startOfYearISO ?pf (getFullYear ?pf k) \<or>
         length (json (stargazers exampleGH ''ryoppippi'' ''B'' 1)) < perPage"
    by (simp add: sg respond_def perPage_def)
  show ?thesis
    using counter_one_page [OF h1 h2] by (simp add: sg utc2025 respond_def event_def)
qed

lemma example_starred:
  "filter (\<lambda>repo. stargazers_count repo > 0)
     [repository ''A'' 5 False, repository ''B'' 10 False, repository ''C'' 0 False]
   = [repository ''A'' 5 False, repository ''B'' 10 False]"
  by (simp add: repository_def)


section \<open>Properties of the ranking\<close>

lemma insertBy_insort_key:
  "insertBy compareStars x ys = insort_key (\<lambda>r. - int (starsThisYear r)) x ys"
  by (induction ys) (simp_all add: compareStars_def)

lemma sortBy_sort_key:
  "sortBy compareStars rs = sort_key (\<lambda>r. - int (starsThisYear r)) rs"
proof -
  have "insertBy compareStars = insort_key (\<lambda>r. - int (starsThisYear r))"
    by (intro ext) (rule insertBy_insort_key)
  then show ?thesis
    by (simp add: sortBy_def sort_key_def)
qed

lemma sortBy_descending:
  "sorted_wrt (\<lambda>a b. starsThisYear a \<ge> starsThisYear b) (sortBy compareStars rs)"
proof -
  have "sorted (map (\<lambda>r. - int (starsThisYear r)) (sortBy compareStars rs))"
    unfolding sortBy_sort_key by (rule sorted_sort_key)
  then show ?thesis
    by (simp add: sorted_map)
qed

lemma sortBy_mset: "mset (sortBy compareStars rs) = mset rs"
  unfolding sortBy_sort_key by simp

lemma sortBy_stable:
  "filter (\<lambda>r. starsThisYear r = c) (sortBy compareStars rs) = filter (\<lambda>r. starsThisYear r = c) rs"
proof -
  have "filter (\<lambda>r. - int (starsThisYear r) = - int c) (sort_key (\<lambda>r. - int (starsThisYear r)) rs)
        = filter (\<lambda>r. - int (starsThisYear r) = - int c) rs"
    by (rule sort_key_stable)
  then show ?thesis
    by (simp add: sortBy_sort_key)
qed

lemma fold_sum: "fold (\<lambda>r sum. sum + g r) xs (a::nat) = a + sum_list (map g xs)"
  by (induction xs arbitrary: a) simp_all

lemma sum_list_sortBy:
  "sum_list (map g (sortBy compareStars rs)) = (sum_list (map g rs) :: nat)"
proof -
  have "sum_mset (image_mset g (mset (sortBy compareStars rs))) = sum_mset (image_mset g (mset rs))"
    by (simp only: sortBy_mset)
  then show ?thesis
    by (simp only: mset_map [symmetric] sum_mset_sum_list)
qed

lemma mathMax_Max:
  assumes "xs \<noteq> []"
  shows "mathMax xs = Max (set xs)"
proof -
  have "mathMax xs = Max (set (0 # xs))"
    unfolding mathMax_def by (rule Max.set_eq_fold [symmetric])
  also have "\<dots> = max 0 (Max (set xs))"
    using assms by simp
  finally show ?thesis by simp
qed

lemma report_table:
  "table (report rs) =
     (let top = take 10 (filter (\<lambda>r. starsThisYear r > 0) (sortBy compareStars rs));
          nameLen = mathMax (map (\<lambda>r. length (RepoStarResult.name r)) top);
          starsLen = mathMax (map (\<lambda>r. length (toString (int (starsThisYear r)))) top);
          totalLen = mathMax (map (\<lambda>r. length (toString (int (totalStars r)))) top)
      in if top = [] then None
         else Some \<lparr> top10 = top, maxNameLen = nameLen, maxStarsLen = starsLen, maxTotalLen = totalLen,
                     rows = map (row nameLen starsLen totalLen) (enumerate 0 top) \<rparr>)"
  by (simp add: report_def Let_def)

lemma example_main:
  "main exampleGH (utc (\<lambda>k. 2025)) settled ''ryoppippi'' = Some (Inr (report [resultA, resultB]))"
proof -
  let ?pf = "utc (\<lambda>k. 2025)"
  let ?repos = "[repository ''A'' 5 False, repository ''B'' 10 False, repository ''C'' 0 False]"
  let ?starred = "[repository ''A'' 5 False, repository ''B'' 10 False]"
  have "getPublicRepos exampleGH ''ryoppippi'' = Some (Inr ([] @ filter (\<lambda>repo. \<not> isPrivate repo)
           (json (userRepos exampleGH ''ryoppippi'' 1))), [] @ [1])"
    unfolding getPublicRepos_def
    by (rule repos_loop_stop) (simp_all add: exampleGH_def respond_def ok_def perPage_def)
  then have listed: "getPublicRepos exampleGH ''ryoppippi'' = Some (Inr ?repos, [1])"
    by (simp add: exampleGH_def respond_def repository_def)
  have counts: "\<forall>j<length ?starred.
      getStarsThisYear exampleGH ?pf (Suc j) ''ryoppippi'' (Repository.name (?starred ! j))
        = Some (Inr ((\<lambda>j. if j = 0 then 3 else 0) j), (\<lambda>j. [1]) j)"
    by (auto simp: less_Suc_eq example_A example_B repository_def)
  have "tasks exampleGH ?pf ''ryoppippi'' ?repos =
         map (\<lambda>j. Some (Inr \<lparr> name = Repository.name (?starred ! j),
                                fullName = full_name (?starred ! j),
                                totalStars = stargazers_count (?starred ! j),
                                starsThisYear = (if j = 0 then 3 else 0),
                                url = html_url (?starred ! j) \<rparr>,
                          (Repository.name (?starred ! j), [1])))
             [0..<length ?starred]"
    using example_starred [symmetric] counts by (rule tasks_all_return)
  then have "map (map_option fst) (tasks exampleGH ?pf ''ryoppippi'' ?repos)
             = map (\<lambda>v. Some (Inr v)) [resultA, resultB]"
    by (simp add: upt_conv_Cons resultA_def resultB_def repository_def)
  then have "aggregate exampleGH ?pf settled ''ryoppippi'' ?repos = Some (Inr [resultA, resultB])"
    unfolding aggregate_def by (simp only: promiseAll_fulfils)
  then show ?thesis
    using listed by (simp add: main_def)
qed

lemma example_sorted: "sortBy compareStars [resultA, resultB] = [resultA, resultB]"
  by (simp add: sortBy_def compareStars_def resultA_def resultB_def)

lemma example_totals:
  "totalStarsThisYear (report [resultA, resultB]) = 3 \<and> totalStarsAllTime (report [resultA, resultB]) = 15"
  by (simp add: report_def Let_def example_sorted) (simp add: resultA_def resultB_def)

lemma example_table:
  "table (report [resultA, resultB]) =
     Some \<lparr> top10 = [resultA], maxNameLen = 1, maxStarsLen = 1, maxTotalLen = 1,
            rows = [''    1. A  +3 (2 -> 5)''] \<rparr>"
proof -
  have top: "take 10 (filter (\<lambda>r. starsThisYear r > 0) (sortBy compareStars [resultA, resultB])) = [resultA]"
    unfolding example_sorted by (simp add: resultA_def resultB_def)
  have digits: "toString 1 = ''1''" "toString 2 = ''2''" "toString 3 = ''3''" "toString 5 = ''5''"
    by (simp_all add: toString_def natToString.simps)
  show ?thesis
    unfolding report_table top
    by (simp add: Let_def mathMax_def enumerate_eq_zip row_def padStart_def padEnd_def resultA_def digits)
qed

text \<open>
  Claim C8. The report holds the results sorted descending by in-window count (a
  rearrangement of all results); the two totals are sums over all results, those with
  no in-window stars included; the table exists exactly when some result has an
  in-window count above 0, shows the first 10 of the sorted results with a count above
  0, and its three column widths are the greatest lengths among the shown rows only.
  For the example (A with 5 lifetime and 3 in-window stars, B with 10 and 0, C with no
  stars) the totals are 3 and 15 and the table shows A alone.
\<close>

theorem ranker_report:
  "sorted_wrt (\<lambda>a b. starsThisYear a \<ge> starsThisYear b) (results (report rs))
   \<and> mset (results (report rs)) = mset rs
   \<and> totalStarsThisYear (report rs) = sum_list (map starsThisYear rs)
   \<and> totalStarsAllTime (report rs) = sum_list (map totalStars rs)
   \<and> (table (report rs) = None \<longleftrightarrow> (\<forall>r\<in>set rs. starsThisYear r = 0))
   \<and> (\<forall>t. table (report rs) = Some t \<longrightarrow>
          top10 t = take 10 (filter (\<lambda>r. starsThisYear r > 0) (results (report rs)))
        \<and> maxNameLen t = Max ((\<lambda>r. length (RepoStarResult.name r)) ` set (top10 t))
        \<and> maxStarsLen t = Max ((\<lambda>r. length (toString (int (starsThisYear r)))) ` set (top10 t))
        \<and> maxTotalLen t = Max ((\<lambda>r. length (toString (int (totalStars r)))) ` set (top10 t))
        \<and> rows t = map (row (maxNameLen t) (maxStarsLen t) (maxTotalLen t)) (enumerate 0 (top10 t)))
   \<and> map_option (map_sum id (\<lambda>r. (totalStarsThisYear r, totalStarsAllTime r,
                                     map_option (\<lambda>t. map RepoStarResult.name (top10 t)) (table r))))
        (main exampleGH (utc (\<lambda>k. 2025)) settled ''ryoppippi'')
      = Some (Inr (3, 15, Some [''A'']))"
proof -
  let ?sorted = "sortBy compareStars rs"
  let ?top = "take 10 (filter (\<lambda>r. starsThisYear r > 0) ?sorted)"
  have res: "results (report rs) = ?sorted"
    by (simp add: report_def Let_def)
  have c1: "sorted_wrt (\<lambda>a b. starsThisYear a \<ge> starsThisYear b) (results (report rs))"
    unfolding res by (rule sortBy_descending)
  have c2: "mset (results (report rs)) = mset rs"
    unfolding res by (rule sortBy_mset)
  have c3: "totalStarsThisYear (report rs) = sum_list (map starsThisYear rs)"
    by (simp add: report_def Let_def fold_sum sum_list_sortBy)
  have c4: "totalStarsAllTime (report rs) = sum_list (map totalStars rs)"
    by (simp add: report_def Let_def fold_sum sum_list_sortBy)
  have "?top = [] \<longleftrightarrow> filter (\<lambda>r. starsThisYear r > 0) ?sorted = []"
    by simp
  also have "\<dots> \<longleftrightarrow> (\<forall>r\<in>set ?sorted. starsThisYear r = 0)"
    by (simp add: filter_empty_conv)
  also have "set ?sorted = set rs"
    using sortBy_mset [of rs] by (rule mset_eq_setD)
  finally have empty: "?top = [] \<longleftrightarrow> (\<forall>r\<in>set rs. starsThisYear r = 0)" .
  have c5: "table (report rs) = None \<longleftrightarrow> (\<forall>r\<in>set rs. starsThisYear r = 0)"
    unfolding empty [symmetric] by (simp add: report_table Let_def)
  have c6: "\<forall>t. table (report rs) = Some t \<longrightarrow>
          top10 t = take 10 (filter (\<lambda>r. starsThisYear r > 0) (results (report rs)))
        \<and> maxNameLen t = Max ((\<lambda>r. length (RepoStarResult.name r)) ` set (top10 t))
        \<and> maxStarsLen t = Max ((\<lambda>r. length (toString (int (starsThisYear r)))) ` set (top10 t))
        \<and> maxTotalLen t = Max ((\<lambda>r. length (toString (int (totalStars r)))) ` set (top10 t))
        \<and> rows t = map (row (maxNameLen t) (maxStarsLen t) (maxTotalLen t)) (enumerate 0 (top10 t))"
  proof (intro allI impI)
    fix t assume t: "table (report rs) = Some t"
    then have nonempty: "?top \<noteq> []"
      by (auto simp: report_table Let_def split: if_splits)
    then have t_eq: "t = \<lparr> top10 = ?top,
                 maxNameLen = mathMax (map (\<lambda>r. length (RepoStarResult.name r)) ?top),
                 maxStarsLen = mathMax (map (\<lambda>r. length (toString (int (starsThisYear r)))) ?top),
                 maxTotalLen = mathMax (map (\<lambda>r. length (toString (int (totalStars r)))) ?top),
                 rows = map (row (mathMax (map (\<lambda>r. length (RepoStarResult.name r)) ?top))
                                 (mathMax (map (\<lambda>r. length (toString (int (starsThisYear r)))) ?top))
                                 (mathMax (map (\<lambda>r. length (toString (int (totalStars r)))) ?top)))
                            (enumerate 0 ?top) \<rparr>"
      using t by (simp add: report_table Let_def)
    have top: "top10 t = ?top"
      by (simp add: t_eq)
    have widths: "mathMax (map f ?top) = Max (f ` set ?top)" for f :: "RepoStarResult \<Rightarrow> nat"
      using nonempty by (simp add: mathMax_Max)
    show "top10 t = take 10 (filter (\<lambda>r. starsThisYear r > 0) (results (report rs)))
        \<and> maxNameLen t = Max ((\<lambda>r. length (RepoStarResult.name r)) ` set (top10 t))
        \<and> maxStarsLen t = Max ((\<lambda>r. length (toString (int (starsThisYear r)))) ` set (top10 t))
        \<and> maxTotalLen t = Max ((\<lambda>r. length (toString (int (totalStars r)))) ` set (top10 t))
        \<and> rows t = map (row (maxNameLen t) (maxStarsLen t) (maxTotalLen t)) (enumerate 0 (top10 t))"
      unfolding top res widths [symmetric] by (simp add: t_eq)
  qed
  have c7: "map_option (map_sum id (\<lambda>r. (totalStarsThisYear r, totalStarsAllTime r,
                                     map_option (\<lambda>t. map RepoStarResult.name (top10 t)) (table r))))
        (main exampleGH (utc (\<lambda>k. 2025)) settled ''ryoppippi'')
      = Some (Inr (3, 15, Some [''A'']))"
    by (simp add: example_main example_totals example_table) (simp add: resultA_def)
  show ?thesis
    using c1 c2 c3 c4 c5 c6 c7 by (intro conjI)
qed

theorem ranker_report_witness:
  "table (report [resultA, resultB]) =
     Some \<lparr> top10 = [resultA], maxNameLen = 1, maxStarsLen = 1, maxTotalLen = 1,
            rows = [''    1. A  +3 (2 -> 5)''] \<rparr>
   \<and> [resultA] = take 10 (filter (\<lambda>r. starsThisYear r > 0) (results (report [resultA, resultB])))
   \<and> (1::nat) = Max ((\<lambda>r. length (RepoStarResult.name r)) ` set [resultA])
   \<and> \<not> (\<forall>r\<in>set [resultA, resultB]. starsThisYear r = 0)"
proof -
  let ?t = "\<lparr> top10 = [resultA], maxNameLen = 1, maxStarsLen = 1, maxTotalLen = 1,
            rows = [''    1. A  +3 (2 -> 5)''] \<rparr>"
  have t: "table (report [resultA, resultB]) = Some ?t"
    by (rule example_table)
  have shown: "top10 ?t = take 10 (filter (\<lambda>r. starsThisYear r > 0) (results (report [resultA, resultB])))
        \<and> maxNameLen ?t = Max ((\<lambda>r. length (RepoStarResult.name r)) ` set (top10 ?t))"
    using ranker_report [of "[resultA, resultB]"] t by blast
  have a: "[resultA] = take 10 (filter (\<lambda>r. starsThisYear r > 0) (results (report [resultA, resultB])))"
    using shown [THEN conjunct1] by (simp only: Table.simps)
  have b: "(1::nat) = Max ((\<lambda>r. length (RepoStarResult.name r)) ` set [resultA])"
    using shown [THEN conjunct2] by (simp only: Table.simps)
  have c: "\<not> (\<forall>r\<in>set [resultA, resultB]. starsThisYear r = 0)"
    using ranker_report [of "[resultA, resultB]"] t by auto
  show ?thesis
    using t a b c by (intro conjI)
qed

section \<open>Order of the results\<close>

lemma task_result:
  assumes "map_option fst (task gh pf username k repo) = Some (Inr r)"
  shows "RepoStarResult.name r = Repository.name repo"
  using assms by (auto simp: task_def split: option.splits sum.splits prod.splits)

lemma aggregate_order:
  assumes "aggregate gh pf settled username repos = Some (Inr rs)"
  shows "map RepoStarResult.name rs = map Repository.name (filter (\<lambda>repo. stargazers_count repo > 0) repos)"
proof -
  let ?starred = "filter (\<lambda>repo. stargazers_count repo > 0) repos"
  let ?raw = "map (\<lambda>j. task gh pf username (Suc j) (?starred ! j)) [0..<length ?starred]"
  have fulfilled: "map (map_option fst) (tasks gh pf username repos) = map (\<lambda>v. Some (Inr v)) rs"
    using assms unfolding aggregate_def by (simp only: promiseAll_fulfils)
  have "None \<notin> set (tasks gh pf username repos)"
  proof
    assume "None \<in> set (tasks gh pf username repos)"
    then have "None \<in> set (map (map_option fst) (tasks gh pf username repos))"
      by force
    then show False
      unfolding fulfilled by auto
  qed
  then have "pLimit 5 ?raw = ?raw"
    unfolding tasks_nth by (rule pLimit_settled)
  then have raw: "tasks gh pf username repos = ?raw"
    by (simp add: tasks_nth)
  have len: "length rs = length ?starred"
    using arg_cong [OF fulfilled, of length] by (simp add: tasks_length)
  show ?thesis
  proof (rule nth_equalityI)
    show "length (map RepoStarResult.name rs) = length (map Repository.name ?starred)"
      using len by simp
  next
    fix j assume "j < length (map RepoStarResult.name rs)"
    then have j: "j < length ?starred"
      using len by simp
    have "map (map_option fst) (tasks gh pf username repos) ! j = map (\<lambda>v. Some (Inr v)) rs ! j"
      by (simp only: fulfilled)
    then have "map_option fst (task gh pf username (Suc j) (?starred ! j)) = Some (Inr (rs ! j))"
      using j len unfolding raw by simp
    then have "RepoStarResult.name (rs ! j) = Repository.name (?starred ! j)"
      by (rule task_result)
    then show "map RepoStarResult.name rs ! j = map Repository.name ?starred ! j"
      using j len by simp
  qed
qed

lemma tasks_same_boundary:
  assumes "\<forall>j k. startOfYearISO pf1 (getFullYear pf1 j) = startOfYearISO pf2 (getFullYear pf2 k)"
  shows "tasks gh pf1 username repos = tasks gh pf2 username repos"
proof -
  have "startOfYearISO pf1 (getFullYear pf1 k) = startOfYearISO pf2 (getFullYear pf2 k)" for k
    using assms by blast
  then have "getStarsThisYear gh pf1 k owner repo = getStarsThisYear gh pf2 k owner repo" for k owner repo
    by (simp add: getStarsThisYear_def)
  then have "task gh pf1 username k repo = task gh pf2 username k repo" for k repo
    by (simp add: task_def)
  then show ?thesis
    by (simp add: tasks_def)
qed

text \<open>
  What the order of the results depends on. When every clock reading of two runs gives
  the same boundary, the two runs return the same report against the same remote data,
  whatever the order in which the tasks settle: \<open>Promise.all\<close> delivers the results
  in the order of the repository list, and the sort is descending and keeps results
  with equal in-window counts in that order.
\<close>

lemma same_boundary_same_report:
  assumes "\<forall>j k. startOfYearISO pf1 (getFullYear pf1 j) = startOfYearISO pf2 (getFullYear pf2 k)"
    and "main gh pf1 settled1 username = Some (Inr rep)"
  shows "main gh pf2 settled2 username = Some (Inr rep)
         \<and> (\<exists>repos fetched unsorted.
               getPublicRepos gh username = Some (Inr repos, fetched)
             \<and> aggregate gh pf1 settled1 username repos = Some (Inr unsorted)
             \<and> map RepoStarResult.name unsorted
                 = map Repository.name (filter (\<lambda>repo. stargazers_count repo > 0) repos)
             \<and> results rep = sortBy compareStars unsorted
             \<and> sorted_wrt (\<lambda>a b. starsThisYear a \<ge> starsThisYear b) (results rep)
             \<and> (\<forall>c. filter (\<lambda>r. starsThisYear r = c) (results rep)
                      = filter (\<lambda>r. starsThisYear r = c) unsorted))"
proof -
  obtain repos fetched where listed: "getPublicRepos gh username = Some (Inr repos, fetched)"
    using assms(2) by (auto simp: main_def split: option.splits sum.splits prod.splits)
  obtain unsorted where agg1: "aggregate gh pf1 settled1 username repos = Some (Inr unsorted)"
    and rep: "rep = report unsorted"
    using assms(2) listed by (auto simp: main_def split: option.splits sum.splits)
  have "map (map_option fst) (tasks gh pf1 username repos) = map (\<lambda>v. Some (Inr v)) unsorted"
    using agg1 unfolding aggregate_def by (simp only: promiseAll_fulfils)
  then have "map (map_option fst) (tasks gh pf2 username repos) = map (\<lambda>v. Some (Inr v)) unsorted"
    by (simp only: tasks_same_boundary [OF assms(1)])
  then have "aggregate gh pf2 settled2 username repos = Some (Inr unsorted)"
    unfolding aggregate_def by (simp only: promiseAll_fulfils)
  then have again: "main gh pf2 settled2 username = Some (Inr rep)"
    using listed rep by (simp add: main_def)
  have res: "results rep = sortBy compareStars unsorted"
    by (simp add: rep report_def Let_def)
  have order: "map RepoStarResult.name unsorted
                 = map Repository.name (filter (\<lambda>repo. stargazers_count repo > 0) repos)"
    using agg1 by (rule aggregate_order)
  have desc: "sorted_wrt (\<lambda>a b. starsThisYear a \<ge> starsThisYear b) (results rep)"
    unfolding res by (rule sortBy_descending)
  have stable: "\<forall>c. filter (\<lambda>r. starsThisYear r = c) (results rep)
                      = filter (\<lambda>r. starsThisYear r = c) unsorted"
    unfolding res by (simp add: sortBy_stable)
  show ?thesis
    using again listed agg1 order res desc stable by blast
qed

section \<open>The window boundary and the clock\<close>

lemma newYearsEve_boundary:
  "startOfYearISO newYearsEve (getFullYear newYearsEve (Suc 0)) = ''2024-01-01T00:00:00.000Z''"
  "startOfYearISO newYearsEve (getFullYear newYearsEve (Suc (Suc 0))) = ''2025-01-01T00:00:00.000Z''"
  by (simp_all add: newYearsEve_def utc_def toString_def natToString.simps)

lemma twins_counts:
  "getStarsThisYear twinsGH newYearsEve (Suc 0) ''ryoppippi'' ''first'' = Some (Inr 1, [1])"
  "getStarsThisYear twinsGH newYearsEve (Suc (Suc 0)) ''ryoppippi'' ''second'' = Some (Inr 0, [1])"
proof -
  have sg: "stargazers twinsGH ''ryoppippi'' r (Suc 0) = respond [event ''2024-06-15T12:00:00Z'']" for r
    by (simp add: twinsGH_def)
  have h1: "ok (stargazers twinsGH ''ryoppippi'' r 1)" for r
    by (simp add: sg respond_def ok_def)
  have h2: "json (stargazers twinsGH ''ryoppippi'' r 1) = [] \<or>
         starred_at (last (json (stargazers twinsGH ''ryoppippi'' r 1)))
           < startOfYearISO newYearsEve (getFullYear newYearsEve k) \<or>
         length (json (stargazers twinsGH ''ryoppippi'' r 1)) < perPage" for r k
    by (simp add: sg respond_def perPage_def)
  show "getStarsThisYear twinsGH newYearsEve (Suc 0) ''ryoppippi'' ''first'' = Some (Inr 1, [1])"
    using counter_one_page [where repo = "''first''" and k = "Suc 0", OF h1 h2]
    by (simp add: sg newYearsEve_boundary respond_def event_def)
  show "getStarsThisYear twinsGH newYearsEve (Suc (Suc 0)) ''ryoppippi'' ''second'' = Some (Inr 0, [1])"
    using counter_one_page [where repo = "''second''" and k = "Suc (Suc 0)", OF h1 h2]
    by (simp add: sg newYearsEve_boundary respond_def event_def)
qed

lemma year2024_counts:
  "getStarsThisYear twinsGH year2024 k ''ryoppippi'' r = Some (Inr 1, [1])"
proof -
  have sg: "stargazers twinsGH ''ryoppippi'' r (Suc 0) = respond [event ''2024-06-15T12:00:00Z'']"
    by (simp add: twinsGH_def)
  have start: "startOfYearISO year2024 (getFullYear year2024 k) = ''2024-01-01T00:00:00.000Z''"
    by (simp add: year2024_def utc_def toString_def natToString.simps)
  have h1: "ok (stargazers twinsGH ''ryoppippi'' r 1)"
    by (simp add: sg respond_def ok_def)
  have h2: "json (stargazers twinsGH ''ryoppippi'' r 1) = [] \<or>
         starred_at (last (json (stargazers twinsGH ''ryoppippi'' r 1)))
           < startOfYearISO year2024 (getFullYear year2024 k) \<or>
         length (json (stargazers twinsGH ''ryoppippi'' r 1)) < perPage"
    by (simp add: sg respond_def perPage_def)
  show ?thesis
    using counter_one_page [OF h1 h2] by (simp add: sg start respond_def event_def)
qed

lemma twins_main:
  assumes "getStarsThisYear twinsGH pf (Suc 0) ''ryoppippi'' ''first'' = Some (Inr a, [1])"
    and "getStarsThisYear twinsGH pf (Suc (Suc 0)) ''ryoppippi'' ''second'' = Some (Inr b, [1])"
  shows "aggregate twinsGH pf settled ''ryoppippi'' [repository ''first'' 1 False, repository ''second'' 1 False]
           = Some (Inr [twinResult ''first'' a, twinResult ''second'' b])"
    and "main twinsGH pf settled ''ryoppippi''
           = Some (Inr (report [twinResult ''first'' a, twinResult ''second'' b]))"
proof -
  let ?repos = "[repository ''first'' 1 False, repository ''second'' 1 False]"
  have starred: "?repos = filter (\<lambda>repo. stargazers_count repo > 0) ?repos"
    by (simp add: repository_def)
  have counts: "\<forall>j<length ?repos.
      getStarsThisYear twinsGH pf (Suc j) ''ryoppippi'' (Repository.name (?repos ! j))
        = Some (Inr ((\<lambda>j. if j = 0 then a else b) j), (\<lambda>j. [1]) j)"
    using assms by (auto simp: less_Suc_eq repository_def)
  have "map (map_option fst) (tasks twinsGH pf ''ryoppippi'' ?repos)
        = map (\<lambda>v. Some (Inr v)) [twinResult ''first'' a, twinResult ''second'' b]"
    unfolding tasks_all_return [OF starred counts]
    by (simp add: upt_conv_Cons twinResult_def repository_def)
  then show agg: "aggregate twinsGH pf settled ''ryoppippi'' ?repos
        = Some (Inr [twinResult ''first'' a, twinResult ''second'' b])"
    unfolding aggregate_def by (simp only: promiseAll_fulfils)
  have "getPublicRepos twinsGH ''ryoppippi'' = Some (Inr ([] @ filter (\<lambda>repo. \<not> isPrivate repo)
           (json (userRepos twinsGH ''ryoppippi'' 1))), [] @ [1])"
    unfolding getPublicRepos_def
    by (rule repos_loop_stop) (simp_all add: twinsGH_def respond_def ok_def perPage_def)
  then have "getPublicRepos twinsGH ''ryoppippi'' = Some (Inr ?repos, [1])"
    by (simp add: twinsGH_def respond_def repository_def)
  then show "main twinsGH pf settled ''ryoppippi''
           = Some (Inr (report [twinResult ''first'' a, twinResult ''second'' b]))"
    using agg by (simp add: main_def)
qed

lemma twins_sorted:
  "b \<le> a \<Longrightarrow> results (report [twinResult ''first'' a, twinResult ''second'' b])
     = [twinResult ''first'' a, twinResult ''second'' b]"
  by (simp add: report_def Let_def sortBy_def compareStars_def twinResult_def)

text \<open>
  Claim C3. The code breaks it in a run that straddles the turn of the year. The main
  program reads the year once, 2024 here, and prints the total under that year; but
  every counter reads the clock again when its task starts. With the clock at 2025
  when the second task starts, the first repository is compared against the boundary
  of 2024 and the second against the boundary of 2025: two repositories with the same
  stargazer data get the counts 1 and 0, and the total printed for 2024 is 1.
\<close>

theorem boundary_differs_within_run:
  "currentYear newYearsEve = 2024
   \<and> startOfYearISO newYearsEve (getFullYear newYearsEve 1) = ''2024-01-01T00:00:00.000Z''
   \<and> startOfYearISO newYearsEve (getFullYear newYearsEve 2) = ''2025-01-01T00:00:00.000Z''
   \<and> stargazers twinsGH ''ryoppippi'' ''first'' = stargazers twinsGH ''ryoppippi'' ''second''
   \<and> map_option (map_sum id (map starsThisYear))
        (aggregate twinsGH newYearsEve [] ''ryoppippi''
           [repository ''first'' 1 False, repository ''second'' 1 False])
      = Some (Inr [1, 0])
   \<and> map_option (map_sum id totalStarsThisYear) (main twinsGH newYearsEve [] ''ryoppippi'')
      = Some (Inr 1)"
proof -
  have year: "currentYear newYearsEve = 2024"
    by (simp add: currentYear_def newYearsEve_def utc_def)
  have first: "startOfYearISO newYearsEve (getFullYear newYearsEve 1) = ''2024-01-01T00:00:00.000Z''"
    using newYearsEve_boundary(1) by simp
  have second: "startOfYearISO newYearsEve (getFullYear newYearsEve 2) = ''2025-01-01T00:00:00.000Z''"
    using newYearsEve_boundary(2) by (simp add: numeral_2_eq_2)
  have same: "stargazers twinsGH ''ryoppippi'' ''first'' = stargazers twinsGH ''ryoppippi'' ''second''"
    by (simp add: twinsGH_def)
  have counts: "map_option (map_sum id (map starsThisYear))
        (aggregate twinsGH newYearsEve [] ''ryoppippi''
           [repository ''first'' 1 False, repository ''second'' 1 False])
      = Some (Inr [1, 0])"
    unfolding twins_main(1) [OF twins_counts] by (simp add: twinResult_def)
  have total: "map_option (map_sum id totalStarsThisYear) (main twinsGH newYearsEve [] ''ryoppippi'')
      = Some (Inr 1)"
    unfolding twins_main(2) [OF twins_counts]
    by (simp add: report_def Let_def sortBy_def compareStars_def twinResult_def)
  show ?thesis
    using year first second same counts total by (intro conjI)
qed

text \<open>
  Claim C9. The code breaks it through the same re-reading of the clock: against the
  same remote data, a run that lies in 2024 throughout and a run that starts in 2024
  and whose second task starts in 2025 return the in-window counts 1, 1 and 1, 0.
\<close>

theorem runs_differ_across_new_year:
  "currentYear year2024 = currentYear newYearsEve
   \<and> map_option (map_sum id (map starsThisYear \<circ> results)) (main twinsGH year2024 [] ''ryoppippi'')
       = Some (Inr [1, 1])
   \<and> map_option (map_sum id (map starsThisYear \<circ> results)) (main twinsGH newYearsEve [] ''ryoppippi'')
       = Some (Inr [1, 0])"
proof -
  have "currentYear year2024 = currentYear newYearsEve"
    by (simp add: currentYear_def year2024_def newYearsEve_def utc_def)
  moreover have "map_option (map_sum id (map starsThisYear \<circ> results)) (main twinsGH year2024 [] ''ryoppippi'')
       = Some (Inr [1, 1])"
    unfolding twins_main(2) [OF year2024_counts year2024_counts]
    by (simp add: twins_sorted) (simp add: twinResult_def)
  moreover have "map_option (map_sum id (map starsThisYear \<circ> results)) (main twinsGH newYearsEve [] ''ryoppippi'')
       = Some (Inr [1, 0])"
    unfolding twins_main(2) [OF twins_counts]
    by (simp add: twins_sorted) (simp add: twinResult_def)
  ultimately show ?thesis
    by (intro conjI)
qed

end
